theory Spec2Isabelle
  imports Main "HOL-Library.Multiset"
begin

section \<open>Text values\<close>

text \<open>
  A Python \<open>str\<close> is a sequence of Unicode code points, so it is modelled as a list of
  natural numbers (an Isabelle \<open>char\<close> is only eight bits wide and could not hold
  U+D800 or U+FFFE).  A \<open>bytes\<close> object is a list of byte values.  The literals of
  the source are written \<open>u ''...''\<close>.
\<close>

type_synonym ustr = "nat list"

definition u :: "string \<Rightarrow> ustr" where
  "u s = map of_char s"

datatype pytext = Str ustr | Bytes "nat list"

datatype error =
    UnicodeDecodeError
  | LookupError
  | AttributeError
  | TypeError
  | ValueError
  | IOError ustr
  | EngineError

text \<open>
  \<open>bytes.decode(encoding)\<close> belongs to the Python runtime, not to this repository: it
  is a parameter of the model.  It either returns the decoded text or raises.
\<close>

type_synonym codec = "ustr \<Rightarrow> nat list \<Rightarrow> error + ustr"

section \<open>xml_safe_unicode\<close>

text \<open>
  The character class of \<open>INVALID_XML_1_0_UNICODE_RE\<close>, range by range as the source
  lists them: 00-08, 0B, 0C, 0E-1F, D800-DFFF, FFFE and FFFF (hexadecimal code points).
\<close>

definition INVALID_XML_1_0_UNICODE_RE :: "nat \<Rightarrow> bool" where
  "INVALID_XML_1_0_UNICODE_RE c =
     ((0x00 \<le> c \<and> c \<le> 0x08) \<or> c = 0x0B \<or> c = 0x0C \<or> (0x0E \<le> c \<and> c \<le> 0x1F)
      \<or> (0xD800 \<le> c \<and> c \<le> 0xDFFF) \<or> c = 0xFFFE \<or> c = 0xFFFF)"

text \<open>\<open>RE.sub('', base)\<close> for a pattern that matches single characters: every match is
  replaced by the empty string, everything else is kept in order.\<close>

fun re_sub_empty :: "(nat \<Rightarrow> bool) \<Rightarrow> ustr \<Rightarrow> ustr" where
  "re_sub_empty re [] = []"
| "re_sub_empty re (c # cs) = (if re c then re_sub_empty re cs else c # re_sub_empty re cs)"

definition xml_safe_unicode :: "codec \<Rightarrow> pytext \<Rightarrow> ustr \<Rightarrow> error + ustr" where
  "xml_safe_unicode decode base encoding =
     (case base of
        Bytes b \<Rightarrow>
          (case decode encoding b of
             Inl e \<Rightarrow> Inl e
           | Inr s \<Rightarrow> Inr (re_sub_empty INVALID_XML_1_0_UNICODE_RE s))
      | Str s \<Rightarrow> Inr (re_sub_empty INVALID_XML_1_0_UNICODE_RE s))"

text \<open>
  The illegal set in the words of the specification: code points below U+0020 other than
  tab, newline and carriage return, the surrogate range, U+FFFE and U+FFFF.
\<close>

definition spec_illegal_char :: "nat \<Rightarrow> bool" where
  "spec_illegal_char c =
     ((c < 0x20 \<and> c \<noteq> 0x09 \<and> c \<noteq> 0x0A \<and> c \<noteq> 0x0D)
      \<or> (0xD800 \<le> c \<and> c \<le> 0xDFFF) \<or> c = 0xFFFE \<or> c = 0xFFFF)"

text \<open>A decoder for the witnesses: seven-bit ASCII, which raises on any other byte.\<close>

definition ascii_codec :: codec where
  "ascii_codec encoding b =
     (if list_all (\<lambda>x. x < 128) b then Inr b else Inl UnicodeDecodeError)"

section \<open>Small string functions of the Python runtime\<close>

text \<open>\<open>str(n)\<close> for a non-negative integer: its decimal digits.\<close>

function str_nat :: "nat \<Rightarrow> ustr" where
  "str_nat n = (if n < 10 then [48 + n] else str_nat (n div 10) @ [48 + n mod 10])"
  by pat_completeness auto
termination
  by (relation "measure (\<lambda>n. n)") auto

declare str_nat.simps [simp del]

text \<open>
  Clock readings and durations are modelled in whole milliseconds (\<open>time.time()\<close>
  returns a float of seconds; the binary rounding of floats is not modelled).
  \<open>'%.3f' % x\<close> for a value of \<open>ms\<close> milliseconds prints the seconds, a point and
  three decimals.
\<close>

definition format_3f :: "int \<Rightarrow> ustr" where
  "format_3f ms =
     (let a = nat (abs ms) in
      (if ms < 0 then u ''-'' else []) @ str_nat (a div 1000) @ u ''.''
        @ [48 + (a div 100) mod 10, 48 + (a div 10) mod 10, 48 + a mod 10])"

text \<open>\<open>s.lower()\<close>, on the letters A to Z; other characters are left as they are (no
  other character lower-cases to one of \<open>.\<close>, \<open>x\<close>, \<open>m\<close>, \<open>l\<close>, which is all the source
  asks of the result).\<close>

definition lower_char :: "nat \<Rightarrow> nat" where
  "lower_char c = (if 65 \<le> c \<and> c \<le> 90 then c + 32 else c)"

definition lower :: "ustr \<Rightarrow> ustr" where
  "lower s = map lower_char s"

definition endswith :: "ustr \<Rightarrow> ustr \<Rightarrow> bool" where
  "endswith s suffix =
     (length suffix \<le> length s \<and> drop (length s - length suffix) s = suffix)"

text \<open>\<open>s.rfind(c)\<close> for a single character: the last position of \<open>c\<close>, or \<open>-1\<close>.\<close>

definition rfind :: "ustr \<Rightarrow> nat \<Rightarrow> int" where
  "rfind s c =
     (if c \<in> set s then int (length s) - 1 - int (length (takeWhile (\<lambda>x. x \<noteq> c) (rev s)))
      else - 1)"

text \<open>\<open>test_id.split('.')[-1]\<close>: the text after the last point (all of it when there
  is none).\<close>

definition test_method_name :: "ustr \<Rightarrow> ustr" where
  "test_method_name test_id = rev (takeWhile (\<lambda>x. x \<noteq> 46) (rev test_id))"

subsection \<open>os.path on a POSIX system\<close>

text \<open>
  \<open>os.sep\<close> is \<open>/\<close> (code point 47) and the extension separator is the point (46).
  \<open>os.path.split\<close> and \<open>os.path.splitext\<close> follow \<open>posixpath\<close>:

  \<^verbatim>\<open>def split(p):
      i = p.rfind(sep) + 1
      head, tail = p[:i], p[i:]
      if head and head != sep*len(head):
          head = head.rstrip(sep)
      return head, tail\<close>

  \<^verbatim>\<open>def _splitext(p, sep, altsep, extsep):
      sepIndex = p.rfind(sep)
      dotIndex = p.rfind(extsep)
      if dotIndex > sepIndex:
          filenameIndex = sepIndex + 1
          while filenameIndex < dotIndex:
              if p[filenameIndex:filenameIndex+1] != extsep:
                  return p[:dotIndex], p[dotIndex:]
              filenameIndex += 1
      return p, p[:0]\<close>

  \<open>os.path.abspath\<close> depends on the working directory of the process and is a
  parameter of the model.
\<close>

definition os_sep :: nat where
  "os_sep = 47"

definition path_split :: "ustr \<Rightarrow> ustr \<times> ustr" where
  "path_split p =
     (let i = nat (rfind p os_sep + 1);
          head = take i p;
          tail = drop i p
      in if head \<noteq> [] \<and> \<not> list_all (\<lambda>x. x = os_sep) head
         then (rev (dropWhile (\<lambda>x. x = os_sep) (rev head)), tail)
         else (head, tail))"

function splitext_loop :: "ustr \<Rightarrow> nat \<Rightarrow> nat \<Rightarrow> bool" where
  "splitext_loop p filenameIndex dotIndex =
     (if filenameIndex < dotIndex
      then (if take 1 (drop filenameIndex p) \<noteq> [46] then True
            else splitext_loop p (Suc filenameIndex) dotIndex)
      else False)"
  by pat_completeness auto
termination
  by (relation "measure (\<lambda>(p, filenameIndex, dotIndex). dotIndex - filenameIndex)") auto

declare splitext_loop.simps [simp del]

definition splitext :: "ustr \<Rightarrow> ustr \<times> ustr" where
  "splitext p =
     (let sepIndex = rfind p os_sep;
          dotIndex = rfind p 46
      in if dotIndex > sepIndex \<and> splitext_loop p (nat (sepIndex + 1)) (nat dotIndex)
         then (take (nat dotIndex) p, drop (nat dotIndex) p)
         else (p, []))"

section \<open>The output channels: _DelegateIO\<close>

text \<open>
  \<open>sys.stdout\<close> and \<open>sys.stderr\<close> hold either a channel of the process (named by a
  handle; what reaches the console is not tracked) or a \<open>_DelegateIO\<close> object with its
  captured text and the stream it delegates to.  The methods \<open>getvalue\<close>, \<open>reset\<close> and the
  attribute \<open>delegate\<close> exist on a \<open>_DelegateIO\<close> only: on a plain channel Python
  raises \<open>AttributeError\<close>.
\<close>

datatype stream = Console nat | DelegateIO ustr stream

fun stream_write :: "stream \<Rightarrow> ustr \<Rightarrow> stream" where
  "stream_write (Console h) text = Console h"
| "stream_write (DelegateIO captured delegate) text =
     DelegateIO (captured @ text) (stream_write delegate text)"

fun getvalue :: "stream \<Rightarrow> error + ustr" where
  "getvalue (Console h) = Inl AttributeError"
| "getvalue (DelegateIO captured delegate) = Inr captured"

fun reset :: "stream \<Rightarrow> error + stream" where
  "reset (Console h) = Inl AttributeError"
| "reset (DelegateIO captured delegate) = Inr (DelegateIO [] delegate)"

fun get_delegate :: "stream \<Rightarrow> error + stream" where
  "get_delegate (Console h) = Inl AttributeError"
| "get_delegate (DelegateIO captured delegate) = Inr delegate"

section \<open>The test records: _TestInfo\<close>

text \<open>
  What the collector reads of a test method object: the module and the name of its class,
  its \<open>id()\<close> and the description \<open>getDescription\<close> gives for it.
\<close>

record test_method =
  tm_module :: ustr
  tm_class_name :: ustr
  tm_id :: ustr
  tm_description :: ustr

text \<open>
  An \<open>err\<close> triple \<open>(type, value, traceback)\<close>, by what the source reads of it:
  \<open>err[0].__name__\<close>, \<open>str(err[1])\<close> and the text \<open>_exc_info_to_string(err, test)\<close>
  of the unittest library.
\<close>

record exc_info =
  exc_type_name :: ustr
  exc_value_str :: ustr
  exc_info_to_string :: ustr

text \<open>The \<open>err\<close> attribute of a record: \<open>None\<close>, an \<open>err\<close> triple, or the reason of a
  skip (a text).\<close>

datatype err_value = NoErr | ExcInfo exc_info | Reason ustr

datatype outcome = SUCCESS | FAILURE | ERROR | SKIP

record TestInfo =
  outcome :: outcome
  test_index :: nat
  elapsed_time :: int
  err :: err_value
  std_output :: "ustr option"
  err_output :: "ustr option"
  test_description :: ustr
  test_exception_info :: ustr
  test_name :: ustr
  test_id :: ustr

definition testcase_name :: "test_method \<Rightarrow> ustr" where
  "testcase_name test_method =
     (let module0 = tm_module test_method @ u ''.'';
          module = (if module0 = u ''__main__.'' then [] else module0)
      in module @ tm_class_name test_method)"

text \<open>\<open>_TestInfo.__init__\<close>.  The trace of a record that is neither a success nor a skip
  is the library's text for its \<open>err\<close> triple.\<close>

definition new_TestInfo ::
  "test_method \<Rightarrow> outcome \<Rightarrow> err_value \<Rightarrow> ustr option \<Rightarrow> ustr option \<Rightarrow> TestInfo" where
  "new_TestInfo test_method outc e std_out err_out =
     \<lparr> outcome = outc,
       test_index = 0,
       elapsed_time = 0,
       err = e,
       std_output = std_out,
       err_output = err_out,
       test_description = tm_description test_method,
       test_exception_info =
         (if outc = SUCCESS \<or> outc = SKIP then []
          else (case e of ExcInfo x \<Rightarrow> exc_info_to_string x | _ \<Rightarrow> [])),
       test_name = testcase_name test_method,
       test_id = tm_id test_method \<rparr>"

section \<open>The collector: _XMLTestResult\<close>

text \<open>
  The state: the two process-wide channels, the store of \<open>_TestInfo\<close> objects (an
  object is its position in \<open>heap\<close>; the lists of the result hold such references, since
  \<open>test_finished\<close> mutates a record that a list already holds), and the attributes of the
  result object.  \<open>failures\<close>, \<open>errors\<close> and \<open>skipped\<close> hold pairs, as in the source.
  \<open>callback\<close> is the pending closure: the record it captured and its two strings.
  \<open>start_time\<close> and \<open>stop_time\<close> do not exist before the first \<open>startTest\<close> and
  \<open>stopTest\<close>.
\<close>

record state =
  sys_stdout :: stream
  sys_stderr :: stream
  heap :: "TestInfo list"
  successes :: "nat list"
  failures :: "(nat \<times> ustr) list"
  errors :: "(nat \<times> ustr) list"
  skipped :: "(nat \<times> ustr) list"
  callback :: "(nat \<times> ustr \<times> ustr) option"
  elapsed_times :: bool
  per_test_output :: bool
  encoding :: ustr
  result_test_index :: nat
  start_time :: "int option"
  stop_time :: "int option"
  testsRun :: nat

text \<open>\<open>_XMLTestResult.__init__\<close>, in a process whose channels are \<open>out\<close> and \<open>err\<close>.\<close>

definition XMLTestResult_init :: "stream \<Rightarrow> stream \<Rightarrow> bool \<Rightarrow> bool \<Rightarrow> ustr \<Rightarrow> state" where
  "XMLTestResult_init out errs elapsed per_test enc =
     \<lparr> sys_stdout = out,
       sys_stderr = errs,
       heap = [],
       successes = [],
       failures = [],
       errors = [],
       skipped = [],
       callback = None,
       elapsed_times = elapsed,
       per_test_output = per_test,
       encoding = enc,
       result_test_index = 0,
       start_time = None,
       stop_time = None,
       testsRun = 0 \<rparr>"

text \<open>Creating an object: it gets the next free position of the store.\<close>

definition alloc :: "TestInfo \<Rightarrow> state \<Rightarrow> nat \<times> state" where
  "alloc info s = (length (heap s), s\<lparr>heap := heap s @ [info]\<rparr>)"

text \<open>
  \<open>_TestInfo.test_finished\<close>, on the record at \<open>ref\<close>: two assignments.  The first copies
  the counter of the result into the record.  The second reads \<open>stop_time\<close> and
  \<open>start_time\<close> of the result, which raises \<open>AttributeError\<close> when one of them was never
  set; the first assignment is then already done.
\<close>

definition test_finished :: "nat \<Rightarrow> state \<Rightarrow> state \<times> error option" where
  "test_finished ref s =
     (let s1 = s\<lparr>heap := (heap s)[ref := (heap s ! ref)\<lparr>test_index := result_test_index s\<rparr>]\<rparr>
      in case (stop_time s1, start_time s1) of
           (Some stop, Some start) \<Rightarrow>
             (s1\<lparr>heap := (heap s1)[ref := (heap s1 ! ref)\<lparr>elapsed_time := stop - start\<rparr>]\<rparr>,
              None)
         | _ \<Rightarrow> (s1, Some AttributeError))"

text \<open>
  The closure that \<open>_prepare_callback\<close> builds, called by \<open>stopTest\<close>:
  \<open>test_info.test_finished()\<close> first, then, when elapsed times are to be ignored, the two
  clock attributes of the result are set to 0.  (The progress line it prints goes to the
  runner's console stream, which is not tracked.)
\<close>

definition run_callback :: "nat \<times> ustr \<times> ustr \<Rightarrow> state \<Rightarrow> state \<times> error option" where
  "run_callback cb s =
     (case test_finished (fst cb) s of
        (s1, Some e) \<Rightarrow> (s1, Some e)
      | (s1, None) \<Rightarrow>
          (if \<not> elapsed_times s1 then s1\<lparr>start_time := Some 0, stop_time := Some 0\<rparr>
           else s1, None))"

text \<open>\<open>_prepare_callback\<close>.  Its target list is \<open>self.successes\<close> in \<open>addSuccess\<close> and a
  fresh list \<open>[]\<close>, dropped at once, in the three other callers.\<close>

datatype target_list = The_successes | A_fresh_list

definition prepare_callback ::
  "nat \<Rightarrow> target_list \<Rightarrow> ustr \<Rightarrow> ustr \<Rightarrow> state \<Rightarrow> state" where
  "prepare_callback test_info target verbose_str short_str s =
     (let s1 = (case target of
                  The_successes \<Rightarrow> s\<lparr>successes := successes s @ [test_info]\<rparr>
                | A_fresh_list \<Rightarrow> s)
      in s1\<lparr>callback := Some (test_info, verbose_str, short_str)\<rparr>)"

definition startTest :: "test_method \<Rightarrow> int \<Rightarrow> state \<Rightarrow> state" where
  "startTest test now s = s\<lparr>start_time := Some now, testsRun := testsRun s + 1\<rparr>"

text \<open>\<open>stopTest\<close>: the state is returned also when the callback raises, with what was
  assigned before.\<close>

definition stopTest :: "test_method \<Rightarrow> int \<Rightarrow> state \<Rightarrow> state \<times> error option" where
  "stopTest test now s =
     (let s1 = s\<lparr>stop_time := Some now\<rparr> in
      case callback s1 of
        Some cb \<Rightarrow>
          (case run_callback cb s1 of
             (s2, Some e) \<Rightarrow> (s2, Some e)
           | (s2, None) \<Rightarrow>
               (s2\<lparr>callback := None, result_test_index := result_test_index s2 + 1\<rparr>, None))
      | None \<Rightarrow> (s1\<lparr>result_test_index := result_test_index s1 + 1\<rparr>, None))"

text \<open>
  The part the four \<open>add...\<close> methods share: with per-test output the record takes the
  text captured on the two channels, which are then reset; otherwise it takes none.  The
  two \<open>getvalue()\<close> calls are evaluated before anything is changed.
\<close>

definition new_record ::
  "test_method \<Rightarrow> outcome \<Rightarrow> err_value \<Rightarrow> state \<Rightarrow> error + (nat \<times> state)" where
  "new_record test outc e s =
     (if per_test_output s then
        (case getvalue (sys_stdout s) of
           Inl x \<Rightarrow> Inl x
         | Inr out \<Rightarrow>
            (case getvalue (sys_stderr s) of
               Inl x \<Rightarrow> Inl x
             | Inr errtext \<Rightarrow>
                (case reset (sys_stdout s) of
                   Inl x \<Rightarrow> Inl x
                 | Inr out' \<Rightarrow>
                    (case reset (sys_stderr s) of
                       Inl x \<Rightarrow> Inl x
                     | Inr err' \<Rightarrow>
                         Inr (alloc (new_TestInfo test outc e (Some out) (Some errtext))
                                (s\<lparr>sys_stdout := out', sys_stderr := err'\<rparr>))))))
      else Inr (alloc (new_TestInfo test outc e None None) s))"

definition addSuccess :: "test_method \<Rightarrow> state \<Rightarrow> error + state" where
  "addSuccess test s =
     (case new_record test SUCCESS NoErr s of
        Inl x \<Rightarrow> Inl x
      | Inr (testinfo, s1) \<Rightarrow>
          Inr (prepare_callback testinfo The_successes (u ''OK'') (u ''.'') s1))"

definition addFailure :: "test_method \<Rightarrow> exc_info \<Rightarrow> state \<Rightarrow> error + state" where
  "addFailure test e s =
     (case new_record test ERROR (ExcInfo e) s of
        Inl x \<Rightarrow> Inl x
      | Inr (testinfo, s1) \<Rightarrow>
          Inr (prepare_callback testinfo A_fresh_list (u ''FAIL'') (u ''F'')
                 (s1\<lparr>errors := errors s1 @ [(testinfo, exc_info_to_string e)]\<rparr>)))"

definition addError :: "test_method \<Rightarrow> exc_info \<Rightarrow> state \<Rightarrow> error + state" where
  "addError test e s =
     (case new_record test ERROR (ExcInfo e) s of
        Inl x \<Rightarrow> Inl x
      | Inr (testinfo, s1) \<Rightarrow>
          Inr (prepare_callback testinfo A_fresh_list (u ''ERROR'') (u ''E'')
                 (s1\<lparr>errors := errors s1 @ [(testinfo, exc_info_to_string e)]\<rparr>)))"

definition addSkip :: "test_method \<Rightarrow> ustr \<Rightarrow> state \<Rightarrow> error + state" where
  "addSkip test reason s =
     (case new_record test SKIP (Reason reason) s of
        Inl x \<Rightarrow> Inl x
      | Inr (testinfo, s1) \<Rightarrow>
          Inr (prepare_callback testinfo A_fresh_list (u ''SKIP'') (u ''S'')
                 (s1\<lparr>skipped := skipped s1 @ [(testinfo, reason)]\<rparr>)))"

section \<open>The execution engine\<close>

text \<open>
  What the engine and the tests do to the collector and the channels, one event each: the
  lifecycle calls (with the reading of the clock for start and stop), the texts a test
  writes to \<open>sys.stdout\<close> and \<open>sys.stderr\<close>, and the assignments by which a test
  replaces \<open>sys.stdout\<close> or \<open>sys.stderr\<close> by another stream.
\<close>

datatype event =
    StartTest test_method int
  | AddSuccess test_method
  | AddFailure test_method exc_info
  | AddError test_method exc_info
  | AddSkip test_method ustr
  | StopTest test_method int
  | WriteOut ustr
  | WriteErr ustr
  | SetStdout stream
  | SetStderr stream

definition lift_result :: "state \<Rightarrow> error + state \<Rightarrow> state \<times> error option" where
  "lift_result s r = (case r of Inl e \<Rightarrow> (s, Some e) | Inr s1 \<Rightarrow> (s1, None))"

fun step :: "event \<Rightarrow> state \<Rightarrow> state \<times> error option" where
  "step (StartTest test now) s = (startTest test now s, None)"
| "step (AddSuccess test) s = lift_result s (addSuccess test s)"
| "step (AddFailure test e) s = lift_result s (addFailure test e s)"
| "step (AddError test e) s = lift_result s (addError test e s)"
| "step (AddSkip test reason) s = lift_result s (addSkip test reason s)"
| "step (StopTest test now) s = stopTest test now s"
| "step (WriteOut text) s = (s\<lparr>sys_stdout := stream_write (sys_stdout s) text\<rparr>, None)"
| "step (WriteErr text) s = (s\<lparr>sys_stderr := stream_write (sys_stderr s) text\<rparr>, None)"
| "step (SetStdout x) s = (s\<lparr>sys_stdout := x\<rparr>, None)"
| "step (SetStderr x) s = (s\<lparr>sys_stderr := x\<rparr>, None)"

text \<open>Events in sequence; the first exception ends the sequence and leaves the state as it
  is at that point.\<close>

fun exec_events :: "event list \<Rightarrow> state \<Rightarrow> state \<times> error option" where
  "exec_events [] s = (s, None)"
| "exec_events (ev # evs) s =
     (case step ev s of
        (s1, Some e) \<Rightarrow> (s1, Some e)
      | (s1, None) \<Rightarrow> exec_events evs s1)"

text \<open>
  The lifecycle contract of the engine: per test, start, exactly one of the four outcome
  calls, stop; a test may write to the channels at any time, and leaves \<open>sys.stdout\<close> and
  \<open>sys.stderr\<close> the objects they are.  \<open>completed\<close> counts the stop calls.
\<close>

datatype phase = Idle | Started | Reported

fun lifecycle :: "phase \<Rightarrow> event list \<Rightarrow> bool" where
  "lifecycle p [] = (p = Idle)"
| "lifecycle p (WriteOut text # evs) = lifecycle p evs"
| "lifecycle p (WriteErr text # evs) = lifecycle p evs"
| "lifecycle Idle (StartTest test now # evs) = lifecycle Started evs"
| "lifecycle Started (AddSuccess test # evs) = lifecycle Reported evs"
| "lifecycle Started (AddFailure test e # evs) = lifecycle Reported evs"
| "lifecycle Started (AddError test e # evs) = lifecycle Reported evs"
| "lifecycle Started (AddSkip test reason # evs) = lifecycle Reported evs"
| "lifecycle Reported (StopTest test now # evs) = lifecycle Idle evs"
| "lifecycle p evs = False"

fun is_stop :: "event \<Rightarrow> bool" where
  "is_stop (StopTest test now) = True"
| "is_stop ev = False"

definition completed :: "event list \<Rightarrow> nat" where
  "completed evs = length (filter is_stop evs)"

fun is_add :: "event \<Rightarrow> bool" where
  "is_add (AddSuccess test) = True"
| "is_add (AddFailure test e) = True"
| "is_add (AddError test e) = True"
| "is_add (AddSkip test reason) = True"
| "is_add ev = False"

fun assigns_channel :: "event \<Rightarrow> bool" where
  "assigns_channel (SetStdout x) = True"
| "assigns_channel (SetStderr x) = True"
| "assigns_channel ev = False"

fun is_write :: "event \<Rightarrow> bool" where
  "is_write (WriteOut text) = True"
| "is_write (WriteErr text) = True"
| "is_write ev = False"

text \<open>An event that neither writes to a channel, nor assigns one, nor is an outcome call
  (which resets the capture buffers): a start or a stop.\<close>

definition quiet :: "event \<Rightarrow> bool" where
  "quiet ev = (\<not> is_write ev \<and> \<not> is_add ev \<and> \<not> assigns_channel ev)"

section \<open>Grouping by test case: _get_info_by_testcase\<close>

text \<open>
  The four lists are walked in the order of the source (successes, failures, errors,
  skipped); an element that is a pair stands for its first component.  Each record is
  paired with its \<open>test_name\<close>.
\<close>

definition testcase_list :: "state \<Rightarrow> (ustr \<times> TestInfo) list" where
  "testcase_list s =
     map (\<lambda>r. (test_name (heap s ! r), heap s ! r))
       (successes s @ map fst (failures s) @ map fst (errors s) @ map fst (skipped s))"

text \<open>
  An \<open>OrderedDict\<close> is an association list in insertion order, with distinct keys.  One
  round of the second loop: an absent key is inserted at the end with an empty list, then
  the record is appended to the list of its key.
\<close>

definition group_step ::
  "(ustr \<times> TestInfo list) list \<Rightarrow> ustr \<times> TestInfo \<Rightarrow> (ustr \<times> TestInfo list) list" where
  "group_step d test =
     (let d1 = (if fst test \<notin> set (map fst d) then d @ [(fst test, [])] else d)
      in map (\<lambda>kv. if fst kv = fst test then (fst kv, snd kv @ [snd test]) else kv) d1)"

text \<open>\<open>list.sort(key=...)\<close> is stable, as \<open>sort_key\<close> is.\<close>

definition group_tests :: "(ustr \<times> TestInfo) list \<Rightarrow> (ustr \<times> TestInfo list) list" where
  "group_tests l = foldl group_step [] (sort_key (\<lambda>x. test_index (snd x)) l)"

definition get_info_by_testcase :: "state \<Rightarrow> (ustr \<times> TestInfo list) list" where
  "get_info_by_testcase s = group_tests (testcase_list s)"

section \<open>Rendering: the document of a suite\<close>

text \<open>
  The nodes of \<open>xml.dom.minidom\<close> that the source creates: elements with their attributes
  (in the order they are set) and children, and CDATA sections.  A document is the list
  of its children.  Serialising a document (\<open>toprettyxml\<close>) is the library's work: what is
  written to a file or a stream is represented by the document itself.
\<close>

datatype xml = Element ustr "(ustr \<times> ustr) list" "xml list" | CDATASection ustr

datatype document = Document "xml list"

fun node_name :: "xml \<Rightarrow> ustr" where
  "node_name (Element name attrs children) = name"
| "node_name (CDATASection text) = u ''#cdata-section''"

fun attributes :: "xml \<Rightarrow> (ustr \<times> ustr) list" where
  "attributes (Element name attrs children) = attrs"
| "attributes (CDATASection text) = []"

fun child_nodes :: "xml \<Rightarrow> xml list" where
  "child_nodes (Element name attrs children) = children"
| "child_nodes (CDATASection text) = []"

definition get_attribute :: "xml \<Rightarrow> ustr \<Rightarrow> ustr option" where
  "get_attribute node name = map_of (attributes node) name"

definition children_named :: "xml \<Rightarrow> ustr \<Rightarrow> xml list" where
  "children_named node name = filter (\<lambda>c. node_name c = name) (child_nodes node)"

text \<open>\<open>_report_testsuite\<close>: the element with its five attributes; its children are added
  by \<open>_add_xml_report\<close>.\<close>

definition report_testsuite :: "ustr \<Rightarrow> ustr \<Rightarrow> TestInfo list \<Rightarrow> xml" where
  "report_testsuite suite_name outsuffix tests =
     Element (u ''testsuite'')
       [ (u ''name'', suite_name @ u ''-'' @ outsuffix),
         (u ''tests'', str_nat (length tests)),
         (u ''time'', format_3f (sum_list (map elapsed_time tests))),
         (u ''failures'', str_nat (length (filter (\<lambda>e. outcome e = FAILURE) tests))),
         (u ''errors'', str_nat (length (filter (\<lambda>e. outcome e = ERROR) tests))) ]
       []"

text \<open>
  The diagnostic element of a record that is not a success.  Its name is
  \<open>('failure', 'error', 'skipped')[outcome - 1]\<close>.  For a failure or an error the source
  subscripts \<open>err\<close>, which raises \<open>TypeError\<close> unless it is a triple; for a skip it hands
  \<open>err\<close> to the regular expression, which raises \<open>TypeError\<close> unless it is a text.
\<close>

definition elem_name :: "outcome \<Rightarrow> ustr" where
  "elem_name outc =
     (case outc of FAILURE \<Rightarrow> u ''failure'' | ERROR \<Rightarrow> u ''error'' | SKIP \<Rightarrow> u ''skipped''
      | SUCCESS \<Rightarrow> u ''skipped'')"

definition report_diagnostic :: "codec \<Rightarrow> TestInfo \<Rightarrow> ustr \<Rightarrow> error + xml" where
  "report_diagnostic decode test_result enc =
     (if outcome test_result \<noteq> SKIP then
        (case err test_result of
           ExcInfo e \<Rightarrow>
             (case xml_safe_unicode decode (Str (exc_value_str e)) enc of
                Inl x \<Rightarrow> Inl x
              | Inr message \<Rightarrow>
                 (case xml_safe_unicode decode (Str (test_exception_info test_result)) enc of
                    Inl x \<Rightarrow> Inl x
                  | Inr error_info \<Rightarrow>
                      Inr (Element (elem_name (outcome test_result))
                             [(u ''type'', exc_type_name e), (u ''message'', message)]
                             [CDATASection error_info])))
         | _ \<Rightarrow> Inl TypeError)
      else
        (case err test_result of
           Reason reason \<Rightarrow>
             (case xml_safe_unicode decode (Str reason) enc of
                Inl x \<Rightarrow> Inl x
              | Inr message \<Rightarrow>
                  Inr (Element (elem_name (outcome test_result))
                         [(u ''type'', u ''skip''), (u ''message'', message)] []))
         | _ \<Rightarrow> Inl TypeError))"

text \<open>A \<open>system-out\<close> or \<open>system-err\<close> block: present when the captured text is truthy,
  that is neither \<open>None\<close> nor empty.\<close>

definition report_captured :: "codec \<Rightarrow> ustr \<Rightarrow> ustr option \<Rightarrow> ustr \<Rightarrow> error + xml list" where
  "report_captured decode name captured enc =
     (case captured of
        None \<Rightarrow> Inr []
      | Some text \<Rightarrow>
          (if text = [] then Inr []
           else (case xml_safe_unicode decode (Str text) enc of
                   Inl x \<Rightarrow> Inl x
                 | Inr safe \<Rightarrow> Inr [Element name [] [CDATASection safe]])))"

definition report_testcase :: "codec \<Rightarrow> ustr \<Rightarrow> TestInfo \<Rightarrow> ustr \<Rightarrow> error + xml" where
  "report_testcase decode suite_name test_result enc =
     (case (if outcome test_result \<noteq> SUCCESS
            then (case report_diagnostic decode test_result enc of
                    Inl x \<Rightarrow> Inl x | Inr failure \<Rightarrow> Inr [failure])
            else Inr []) of
        Inl x \<Rightarrow> Inl x
      | Inr diagnostic \<Rightarrow>
         (case report_captured decode (u ''system-out'') (std_output test_result) enc of
            Inl x \<Rightarrow> Inl x
          | Inr systemout \<Rightarrow>
             (case report_captured decode (u ''system-err'') (err_output test_result) enc of
                Inl x \<Rightarrow> Inl x
              | Inr systemerr \<Rightarrow>
                  Inr (Element (u ''testcase'')
                         [ (u ''classname'', suite_name),
                           (u ''name'', test_method_name (test_id test_result)),
                           (u ''time'', format_3f (elapsed_time test_result)) ]
                         (diagnostic @ systemout @ systemerr)))))"

fun report_testcases :: "codec \<Rightarrow> ustr \<Rightarrow> TestInfo list \<Rightarrow> ustr \<Rightarrow> error + xml list" where
  "report_testcases decode suite_name [] enc = Inr []"
| "report_testcases decode suite_name (test # tests) enc =
     (case report_testcase decode suite_name test enc of
        Inl x \<Rightarrow> Inl x
      | Inr testcase \<Rightarrow>
         (case report_testcases decode suite_name tests enc of
            Inl x \<Rightarrow> Inl x
          | Inr testcases \<Rightarrow> Inr (testcase # testcases)))"

text \<open>\<open>_report_output\<close>: the two suite-level blocks with all that the channels captured.\<close>

definition report_output :: "codec \<Rightarrow> state \<Rightarrow> ustr \<Rightarrow> error + xml list" where
  "report_output decode s enc =
     (case getvalue (sys_stdout s) of
        Inl x \<Rightarrow> Inl x
      | Inr out \<Rightarrow>
         (case xml_safe_unicode decode (Str out) enc of
            Inl x \<Rightarrow> Inl x
          | Inr safe_out \<Rightarrow>
             (case getvalue (sys_stderr s) of
                Inl x \<Rightarrow> Inl x
              | Inr errtext \<Rightarrow>
                 (case xml_safe_unicode decode (Str errtext) enc of
                    Inl x \<Rightarrow> Inl x
                  | Inr safe_err \<Rightarrow>
                      Inr [ Element (u ''system-out'') [] [CDATASection safe_out],
                            Element (u ''system-err'') [] [CDATASection safe_err] ]))))"

subsection \<open>Serialising: toprettyxml\<close>

text \<open>
  \<open>doc.toprettyxml(indent, encoding)\<close> is the library's.  Two of its exceptions are kept:
  it opens a writer for \<open>encoding\<close>, which raises \<open>LookupError\<close> for an encoding the
  runtime does not know (as decoding the empty byte string does), and
  \<open>CDATASection.writexml\<close> raises \<open>ValueError\<close> when the data of a CDATA section contains
  \<open>]]>\<close> (code points 93, 93, 62).  Otherwise the bytes it returns are represented by
  the document itself.
\<close>

fun cdata_sections :: "xml \<Rightarrow> ustr list" where
  "cdata_sections (CDATASection data) = [data]"
| "cdata_sections (Element name attrs children) = concat (map cdata_sections children)"

text \<open>\<open>data.find("]]>") >= 0\<close>.\<close>

fun find_cdata_end :: "ustr \<Rightarrow> bool" where
  "find_cdata_end [] = False"
| "find_cdata_end (c # cs) = (take 3 (c # cs) = [93, 93, 62] \<or> find_cdata_end cs)"

definition toprettyxml :: "codec \<Rightarrow> ustr \<Rightarrow> document \<Rightarrow> error + document" where
  "toprettyxml decode enc doc =
     (case doc of
        Document nodes \<Rightarrow>
          if decode enc [] = Inl LookupError then Inl LookupError
          else if list_ex find_cdata_end (concat (map cdata_sections nodes)) then Inl ValueError
          else Inr doc)"

text \<open>
  \<open>_add_xml_report\<close> appends the suite's element to \<open>node\<close>, which is the document itself
  (directory and stream mode) or the \<open>testsuites\<close> element that holds the suites added
  before (single-file mode).  \<open>document_with node testsuite\<close> is the whole document once
  the element is appended.
\<close>

datatype report_node = The_document | The_testsuites "xml list"

definition document_with :: "report_node \<Rightarrow> xml \<Rightarrow> document" where
  "document_with node testsuite =
     (case node of
        The_document \<Rightarrow> Document [testsuite]
      | The_testsuites previous \<Rightarrow>
          Document [Element (u ''testsuites'') [] (previous @ [testsuite])])"

text \<open>\<open>_add_xml_report\<close>: the \<open>testsuite\<close> element that it appends to \<open>node\<close>, complete
  with the children it receives.  Its last statement serialises the whole document; the
  bytes are dropped by every caller, an exception is not.\<close>

definition add_xml_report ::
  "codec \<Rightarrow> state \<Rightarrow> ustr \<Rightarrow> ustr \<Rightarrow> TestInfo list \<Rightarrow> report_node \<Rightarrow> error + xml" where
  "add_xml_report decode s outsuffix suite tests node =
     (case report_testcases decode suite tests (encoding s) of
        Inl x \<Rightarrow> Inl x
      | Inr testcases \<Rightarrow>
         (case (if \<not> per_test_output s then report_output decode s (encoding s) else Inr []) of
            Inl x \<Rightarrow> Inl x
          | Inr blocks \<Rightarrow>
             (case toprettyxml decode (encoding s)
                     (document_with node
                        (Element (node_name (report_testsuite suite outsuffix tests))
                           (attributes (report_testsuite suite outsuffix tests))
                           (testcases @ blocks))) of
                Inl x \<Rightarrow> Inl x
              | Inr xml_content \<Rightarrow>
                  Inr (Element (node_name (report_testsuite suite outsuffix tests))
                         (attributes (report_testsuite suite outsuffix tests))
                         (testcases @ blocks)))))"

section \<open>The runner and the report sink\<close>

text \<open>
  The output target of the runner (its attribute \<open>output\<close>, here \<open>output_target\<close>) is a
  path (a \<open>str\<close>) or an open stream, named by a handle.  \<open>XMLTestRunner.__init__\<close>
  replaces a missing or empty suffix by the time stamp
  \<open>time.strftime("%Y%m%d%H%M%S")\<close>, which is a parameter here.
\<close>

datatype target = Path ustr | Stream nat

record XMLTestRunner =
  output_target :: target
  outsuffix :: ustr
  runner_elapsed_times :: bool
  runner_per_test_output :: bool
  runner_encoding :: ustr

definition XMLTestRunner_init ::
  "ustr \<Rightarrow> target \<Rightarrow> ustr option \<Rightarrow> bool \<Rightarrow> bool \<Rightarrow> ustr \<Rightarrow> XMLTestRunner" where
  "XMLTestRunner_init timestamp out suffix elapsed per_test enc =
     \<lparr> output_target = out,
       outsuffix = (case suffix of None \<Rightarrow> timestamp
                    | Some x \<Rightarrow> if x \<noteq> [] then x else timestamp),
       runner_elapsed_times = elapsed,
       runner_per_test_output = per_test,
       runner_encoding = enc \<rparr>"

text \<open>
  The world outside the process is what the operating system is asked to do.  The calls
  that succeeded are recorded in order: \<open>os.makedirs(p)\<close>, \<open>open(p, 'wb')\<close>, the write of
  a serialised document to the file opened as \<open>p\<close>, the write of one to a stream.  What
  \<open>os.makedirs\<close> and \<open>open\<close> then do to the file system is the system's business.  Two
  things are read from the world: whether a path exists when report generation starts
  (\<open>os.path.exists\<close>, asked once and before any call), and on which paths
  \<open>os.makedirs\<close> and \<open>open\<close> raise (permissions, an invalid path, a file where a
  directory is needed).  Writing to a file that has been opened, and closing it, are
  taken to succeed.
\<close>

datatype os_call =
    Makedirs ustr
  | Open_wb ustr
  | File_write ustr document
  | Stream_write nat document

record world =
  path_exists :: "ustr \<Rightarrow> bool"
  io_fault :: "ustr set"
  calls :: "os_call list"

definition os_makedirs :: "ustr \<Rightarrow> world \<Rightarrow> error + world" where
  "os_makedirs p w =
     (if p \<in> io_fault w then Inl (IOError p) else Inr (w\<lparr>calls := calls w @ [Makedirs p]\<rparr>))"

definition open_wb :: "ustr \<Rightarrow> world \<Rightarrow> error + world" where
  "open_wb p w =
     (if p \<in> io_fault w then Inl (IOError p) else Inr (w\<lparr>calls := calls w @ [Open_wb p]\<rparr>))"

definition file_write :: "ustr \<Rightarrow> document \<Rightarrow> world \<Rightarrow> world" where
  "file_write p xml_content w = w\<lparr>calls := calls w @ [File_write p xml_content]\<rparr>"

definition stream_target_write :: "nat \<Rightarrow> document \<Rightarrow> world \<Rightarrow> world" where
  "stream_target_write h xml_content w = w\<lparr>calls := calls w @ [Stream_write h xml_content]\<rparr>"

text \<open>The file name of a suite in directory mode.\<close>

definition suite_filename :: "ustr \<Rightarrow> ustr \<Rightarrow> ustr \<Rightarrow> ustr" where
  "suite_filename dir suffix suite =
     (if suffix \<noteq> [] then dir @ [os_sep] @ u ''TEST-'' @ suite @ u ''-'' @ suffix @ u ''.xml''
      else dir @ [os_sep] @ u ''TEST-'' @ suite @ u ''.xml'')"

text \<open>The loop of directory mode: per suite a fresh document with the suite's element,
  serialised and written to the suite's file.  An exception ends the loop and leaves the
  calls made so far.\<close>

fun write_suite_files ::
  "codec \<Rightarrow> state \<Rightarrow> ustr \<Rightarrow> ustr \<Rightarrow> (ustr \<times> TestInfo list) list \<Rightarrow> world
     \<Rightarrow> world \<times> error option" where
  "write_suite_files decode s dir suffix [] w = (w, None)"
| "write_suite_files decode s dir suffix ((suite, tests) # rest) w =
     (case add_xml_report decode s suffix suite tests The_document of
        Inl e \<Rightarrow> (w, Some e)
      | Inr testsuite \<Rightarrow>
         (case toprettyxml decode (encoding s) (Document [testsuite]) of
            Inl e \<Rightarrow> (w, Some e)
          | Inr xml_content \<Rightarrow>
             (case open_wb (suite_filename dir suffix suite) w of
                Inl e \<Rightarrow> (w, Some e)
              | Inr w1 \<Rightarrow>
                  write_suite_files decode s dir suffix rest
                    (file_write (suite_filename dir suffix suite) xml_content w1))))"

text \<open>The loop of single-file mode: the suites' elements, in order, as they are appended
  to the \<open>testsuites\<close> element, which holds \<open>previous\<close> already.\<close>

fun add_xml_reports ::
  "codec \<Rightarrow> state \<Rightarrow> ustr \<Rightarrow> (ustr \<times> TestInfo list) list \<Rightarrow> xml list \<Rightarrow> error + xml list" where
  "add_xml_reports decode s suffix [] previous = Inr previous"
| "add_xml_reports decode s suffix ((suite, tests) # rest) previous =
     (case add_xml_report decode s suffix suite tests (The_testsuites previous) of
        Inl e \<Rightarrow> Inl e
      | Inr testsuite \<Rightarrow> add_xml_reports decode s suffix rest (previous @ [testsuite]))"

text \<open>The loop of stream mode.\<close>

fun write_suite_stream ::
  "codec \<Rightarrow> state \<Rightarrow> nat \<Rightarrow> ustr \<Rightarrow> (ustr \<times> TestInfo list) list \<Rightarrow> world
     \<Rightarrow> world \<times> error option" where
  "write_suite_stream decode s h suffix [] w = (w, None)"
| "write_suite_stream decode s h suffix ((suite, tests) # rest) w =
     (case add_xml_report decode s suffix suite tests The_document of
        Inl e \<Rightarrow> (w, Some e)
      | Inr testsuite \<Rightarrow>
         (case toprettyxml decode (encoding s) (Document [testsuite]) of
            Inl e \<Rightarrow> (w, Some e)
          | Inr xml_content \<Rightarrow>
              write_suite_stream decode s h suffix rest
                (stream_target_write h xml_content w)))"

definition single_filename :: "ustr \<Rightarrow> ustr \<Rightarrow> ustr" where
  "single_filename abs_output suffix =
     (let file = fst (splitext abs_output); ext = snd (splitext abs_output)
      in if suffix \<noteq> [] then file @ u ''-'' @ suffix @ ext else file @ ext)"

definition generate_reports ::
  "codec \<Rightarrow> (ustr \<Rightarrow> ustr) \<Rightarrow> state \<Rightarrow> XMLTestRunner \<Rightarrow> world \<Rightarrow> world \<times> error option" where
  "generate_reports decode abspath s test_runner w =
     (let all_results = get_info_by_testcase s in
      case output_target test_runner of
        Path out \<Rightarrow>
          (if \<not> endswith (lower out) (u ''.xml'') then
             (case (if \<not> path_exists w out then os_makedirs out w else Inr w) of
                Inl e \<Rightarrow> (w, Some e)
              | Inr w1 \<Rightarrow>
                  write_suite_files decode s out (outsuffix test_runner) all_results w1)
           else
             (let dir = fst (path_split (abspath out));
                  filename = single_filename (abspath out) (outsuffix test_runner)
              in case (if \<not> path_exists w dir then os_makedirs dir w else Inr w) of
                   Inl e \<Rightarrow> (w, Some e)
                 | Inr w1 \<Rightarrow>
                    (case open_wb filename w1 of
                       Inl e \<Rightarrow> (w1, Some e)
                     | Inr w2 \<Rightarrow>
                        (case add_xml_reports decode s (outsuffix test_runner) all_results [] of
                           Inl e \<Rightarrow> (w2, Some e)
                         | Inr testsuites \<Rightarrow>
                            (case toprettyxml decode (encoding s)
                                    (Document [Element (u ''testsuites'') [] testsuites]) of
                               Inl e \<Rightarrow> (w2, Some e)
                             | Inr xml_content \<Rightarrow>
                                 (file_write filename xml_content w2, None))))))
      | Stream h \<Rightarrow>
          write_suite_stream decode s h (outsuffix test_runner) all_results w)"

section \<open>XMLTestRunner.run\<close>

definition make_result :: "XMLTestRunner \<Rightarrow> stream \<Rightarrow> stream \<Rightarrow> state" where
  "make_result test_runner out errs =
     XMLTestResult_init out errs (runner_elapsed_times test_runner)
       (runner_per_test_output test_runner) (runner_encoding test_runner)"

definition patch_standard_output :: "stream \<times> stream \<Rightarrow> stream \<times> stream" where
  "patch_standard_output sys = (DelegateIO [] (fst sys), DelegateIO [] (snd sys))"

text \<open>\<open>_restore_standard_output\<close>: two assignments, each of which reads the attribute
  \<open>delegate\<close>.\<close>

definition restore_standard_output :: "state \<Rightarrow> state \<times> error option" where
  "restore_standard_output s =
     (case get_delegate (sys_stdout s) of
        Inl e \<Rightarrow> (s, Some e)
      | Inr out \<Rightarrow>
         (case get_delegate (sys_stderr s) of
            Inl e \<Rightarrow> (s\<lparr>sys_stdout := out\<rparr>, Some e)
          | Inr errs \<Rightarrow> (s\<lparr>sys_stdout := out, sys_stderr := errs\<rparr>, None)))"

text \<open>
  The body of the \<open>try\<close> block of \<open>run\<close>.  The call \<open>test(result)\<close> is the engine's list of
  events, after which the engine may itself raise (\<open>abort\<close>).  What \<open>run\<close> prints on the
  runner's console stream is not tracked.
\<close>

definition run_body ::
  "codec \<Rightarrow> (ustr \<Rightarrow> ustr) \<Rightarrow> XMLTestRunner \<Rightarrow> event list \<Rightarrow> error option
     \<Rightarrow> stream \<times> stream \<Rightarrow> world \<Rightarrow> state \<times> world \<times> error option" where
  "run_body decode abspath test_runner evs abort sys w =
     (let patched = patch_standard_output sys;
          result = make_result test_runner (fst patched) (snd patched)
      in case exec_events evs result of
           (s1, Some e) \<Rightarrow> (s1, w, Some e)
         | (s1, None) \<Rightarrow>
            (case abort of
               Some e \<Rightarrow> (s1, w, Some e)
             | None \<Rightarrow>
                 (case generate_reports decode abspath s1 test_runner w of
                    (w1, r) \<Rightarrow> (s1, w1, r))))"

text \<open>\<open>run\<close>: the body, then the \<open>finally\<close> clause on every path.  An exception of the
  \<open>finally\<close> clause replaces the one of the body.\<close>

definition run ::
  "codec \<Rightarrow> (ustr \<Rightarrow> ustr) \<Rightarrow> XMLTestRunner \<Rightarrow> event list \<Rightarrow> error option
     \<Rightarrow> stream \<times> stream \<Rightarrow> world \<Rightarrow> state \<times> world \<times> error option" where
  "run decode abspath test_runner evs abort sys w =
     (case run_body decode abspath test_runner evs abort sys w of
        (s1, w1, r) \<Rightarrow>
          (case restore_standard_output s1 of
             (s2, Some e) \<Rightarrow> (s2, w1, Some e)
           | (s2, None) \<Rightarrow> (s2, w1, r)))"

text \<open>
  The states that a sequence of events passes through, the first one included, and the
  states of the process inside the \<open>try\<close> block of \<open>run\<close>: from the moment the result
  object is made, after \<open>_patch_standard_output\<close>, to the end of \<open>test(result)\<close>.
\<close>

fun exec_trace :: "event list \<Rightarrow> state \<Rightarrow> state list" where
  "exec_trace [] s = [s]"
| "exec_trace (ev # evs) s =
     s # (case step ev s of
            (s1, Some e) \<Rightarrow> [s1]
          | (s1, None) \<Rightarrow> exec_trace evs s1)"


section \<open>Sample inputs and the words of the specification\<close>

text \<open>A test method, an \<open>err\<close> triple whose message has two lines, and a fresh result
  object in a process whose channels are already patched.\<close>

definition sample_test :: test_method where
  "sample_test =
     \<lparr> tm_module = u ''pkg.mod'',
       tm_class_name = u ''CaseA'',
       tm_id = u ''pkg.mod.CaseA.test_one'',
       tm_description = u ''test_one (pkg.mod.CaseA)'' \<rparr>"

definition sample_exc :: exc_info where
  "sample_exc =
     \<lparr> exc_type_name = u ''AssertionError'',
       exc_value_str = u ''a'' @ [10] @ u ''b'',
       exc_info_to_string = u ''Traceback'' \<rparr>"

definition sample_result :: "bool \<Rightarrow> bool \<Rightarrow> state" where
  "sample_result elapsed per_test =
     XMLTestResult_init (DelegateIO [] (Console 1)) (DelegateIO [] (Console 2))
       elapsed per_test (u ''utf-8'')"

text \<open>The first line of a text, in the words of the specification: what precedes the
  first newline.\<close>

definition spec_first_line :: "ustr \<Rightarrow> ustr" where
  "spec_first_line text = takeWhile (\<lambda>c. c \<noteq> 10) text"

section \<open>Predicates on the channels\<close>

text \<open>
  \<open>same_channel a b\<close>: \<open>a\<close> and \<open>b\<close> are the same stream object, whatever text its capture
  buffers hold by now (a channel of the process is its handle; a \<open>_DelegateIO\<close> is the
  same object when it delegates to the same object).  \<open>captures a orig\<close>: \<open>a\<close> is a
  \<open>_DelegateIO\<close> that delegates to \<open>orig\<close>.  \<open>patched out errs s\<close>: in the state \<open>s\<close> the two
  channels of the process are replaced by capturing streams over \<open>out\<close> and \<open>errs\<close>.
\<close>

fun same_channel :: "stream \<Rightarrow> stream \<Rightarrow> bool" where
  "same_channel (Console h) (Console h') = (h = h')"
| "same_channel (DelegateIO c d) (DelegateIO c' d') = same_channel d d'"
| "same_channel a b = False"

fun captures :: "stream \<Rightarrow> stream \<Rightarrow> bool" where
  "captures (DelegateIO c d) orig = same_channel d orig"
| "captures (Console h) orig = False"

definition patched :: "stream \<Rightarrow> stream \<Rightarrow> state \<Rightarrow> bool" where
  "patched out errs s = (captures (sys_stdout s) out \<and> captures (sys_stderr s) errs)"

text \<open>A world for the examples: no path exists yet, and the paths of \<open>faults\<close> cannot be
  created or opened.\<close>

definition sample_world :: "ustr set \<Rightarrow> world" where
  "sample_world faults = \<lparr> path_exists = (\<lambda>p. False), io_fault = faults, calls = [] \<rparr>"

text \<open>A runner as \<open>XMLTestRunner(output=..., outsuffix='X')\<close> builds it, and the events of
  one passing test that writes to standard output.\<close>

definition sample_runner :: "target \<Rightarrow> bool \<Rightarrow> XMLTestRunner" where
  "sample_runner out per_test =
     XMLTestRunner_init (u ''20200101000000'') out (Some (u ''X'')) True per_test (u ''utf-8'')"

definition sample_events :: "event list" where
  "sample_events =
     [ StartTest sample_test 1000, WriteOut (u ''hello''), AddSuccess sample_test,
       StopTest sample_test 1500 ]"

text \<open>An \<open>err\<close> triple whose formatted trace contains \<open>]]>\<close>, as that of
  \<open>raise ValueError("x]]>")\<close> does, and the events of one test that ends with it.\<close>

definition cdata_exc :: exc_info where
  "cdata_exc =
     \<lparr> exc_type_name = u ''ValueError'',
       exc_value_str = u ''x'',
       exc_info_to_string = u ''x]]>'' \<rparr>"

definition cdata_events :: "event list" where
  "cdata_events =
     [ StartTest sample_test 1000, AddError sample_test cdata_exc, StopTest sample_test 1500 ]"

section \<open>The words of the specification on the report files\<close>

text \<open>The file of a suite in directory mode: \<open>TEST-<suite>-<suffix>.xml\<close> inside the
  directory, \<open>TEST-<suite>.xml\<close> when the suffix is empty.\<close>

definition spec_suite_file :: "ustr \<Rightarrow> ustr \<Rightarrow> ustr \<Rightarrow> ustr" where
  "spec_suite_file dir suffix suite =
     dir @ u ''/'' @ u ''TEST-'' @ suite @ (if suffix = [] then [] else u ''-'' @ suffix)
       @ u ''.xml''"

text \<open>The combined file of single-file mode: \<open><base>-<suffix>.xml\<close> for a target
  \<open><base>.xml\<close>, the target itself when the suffix is empty.\<close>

definition spec_single_file :: "ustr \<Rightarrow> ustr \<Rightarrow> ustr \<Rightarrow> ustr" where
  "spec_single_file base ext suffix =
     base @ (if suffix = [] then [] else u ''-'' @ suffix) @ ext"

text \<open>The last component of a path: what follows its last separator.\<close>

definition final_component :: "ustr \<Rightarrow> ustr" where
  "final_component p = rev (takeWhile (\<lambda>c. c \<noteq> 47) (rev p))"

section \<open>The words of the specification on grouping and on execution indices\<close>

text \<open>
  \<open>first_seen xs\<close>: the elements of \<open>xs\<close> in the order in which each first appears.
  \<open>spec_group l\<close>: the suite names of \<open>l\<close> in first-seen order, each with its records in
  the order of \<open>l\<close>.  \<open>by_index l\<close>: \<open>l\<close> sorted by execution index.
\<close>

fun first_seen :: "'a list \<Rightarrow> 'a list" where
  "first_seen [] = []"
| "first_seen (x # xs) = x # filter (\<lambda>y. y \<noteq> x) (first_seen xs)"

definition spec_group :: "(ustr \<times> TestInfo) list \<Rightarrow> (ustr \<times> TestInfo list) list" where
  "spec_group l =
     map (\<lambda>suite. (suite, map snd (filter (\<lambda>x. fst x = suite) l))) (first_seen (map fst l))"

definition by_index :: "(ustr \<times> TestInfo) list \<Rightarrow> (ustr \<times> TestInfo) list" where
  "by_index l = sort_key (\<lambda>x. test_index (snd x)) l"

text \<open>The references that the four lists of the result hold, in the order in which
  \<open>_get_info_by_testcase\<close> walks them.\<close>

definition all_refs :: "state \<Rightarrow> nat list" where
  "all_refs s = successes s @ map fst (failures s) @ map fst (errors s) @ map fst (skipped s)"

text \<open>
  The invariant of the collector along a run that follows the lifecycle contract, after
  \<open>n\<close> completed tests and in phase \<open>p\<close>: the counter is \<open>n\<close>; the first \<open>n\<close> records carry
  the indices \<open>0, ..., n - 1\<close> in the order of their creation; in phase \<open>Reported\<close> there is
  one more record, still with the index 0 of its constructor, and the pending callback
  refers to it; the clock was read at the last start; the four lists hold every record
  exactly once.
\<close>

definition lifecycle_inv :: "phase \<Rightarrow> nat \<Rightarrow> state \<Rightarrow> bool" where
  "lifecycle_inv p n s =
     (result_test_index s = n
      \<and> map test_index (take n (heap s)) = [0..<n]
      \<and> length (heap s) = (if p = Reported then Suc n else n)
      \<and> (if p = Reported
          then (\<exists>v sh. callback s = Some (n, v, sh)) \<and> test_index (heap s ! n) = 0
          else callback s = None)
      \<and> (p = Idle \<or> start_time s \<noteq> None)
      \<and> mset (all_refs s) = mset [0..<length (heap s)])"

text \<open>A run of four tests of two suites that follows the lifecycle contract: a success, a
  failure, a skip and an error, with output written in between.\<close>

definition other_test :: test_method where
  "other_test =
     \<lparr> tm_module = u ''__main__'',
       tm_class_name = u ''CaseB'',
       tm_id = u ''__main__.CaseB.test_two'',
       tm_description = u ''test_two (__main__.CaseB)'' \<rparr>"

definition sample_run :: "event list" where
  "sample_run =
     [ StartTest sample_test 1000, AddSuccess sample_test, StopTest sample_test 1250,
       StartTest other_test 2000, WriteOut (u ''hello''), AddFailure other_test sample_exc,
       StopTest other_test 2001,
       StartTest sample_test 3000, AddSkip sample_test (u ''why''), WriteErr (u ''bye''),
       StopTest sample_test 3010,
       StartTest other_test 4000, AddError other_test sample_exc, StopTest other_test 4500 ]"

section \<open>Properties of xml_safe_unicode\<close>

lemma re_sub_empty_filter: "re_sub_empty re s = filter (\<lambda>c. \<not> re c) s"
  by (induction s) auto

lemma invalid_re_is_spec_illegal: "INVALID_XML_1_0_UNICODE_RE c = spec_illegal_char c"
  unfolding INVALID_XML_1_0_UNICODE_RE_def spec_illegal_char_def by arith

text \<open>
  Claim C4.  For a text input, and for a byte input that the configured encoding decodes,
  \<open>xml_safe_unicode\<close> returns (it does not raise) the input text, respectively the
  decoded text, with exactly the illegal characters removed; so the result holds no
  character of the illegal set.
\<close>

theorem xml_safe_unicode_strips_illegal:
  "(xml_safe_unicode decode (Str s) enc = Inr (filter (\<lambda>c. \<not> spec_illegal_char c) s)
    \<and> list_all (\<lambda>c. \<not> spec_illegal_char c) (filter (\<lambda>c. \<not> spec_illegal_char c) s))
   \<and> (decode enc b = Inr t \<longrightarrow>
        xml_safe_unicode decode (Bytes b) enc = Inr (filter (\<lambda>c. \<not> spec_illegal_char c) t)
        \<and> list_all (\<lambda>c. \<not> spec_illegal_char c) (filter (\<lambda>c. \<not> spec_illegal_char c) t))"
  by (simp add: xml_safe_unicode_def re_sub_empty_filter invalid_re_is_spec_illegal
      list_all_iff)

theorem xml_safe_unicode_strips_illegal_witness:
  "ascii_codec (u ''ascii'') [0x61, 0x00, 0x0A, 0x1F, 0x62] = Inr [0x61, 0x00, 0x0A, 0x1F, 0x62]
   \<and> xml_safe_unicode ascii_codec (Bytes [0x61, 0x00, 0x0A, 0x1F, 0x62]) (u ''ascii'')
       = Inr [0x61, 0x0A, 0x62]
   \<and> xml_safe_unicode ascii_codec (Str [0x61, 0xD800, 0x09, 0xFFFE, 0x0B, 0x62]) (u ''ascii'')
       = Inr [0x61, 0x09, 0x62]"
  using xml_safe_unicode_strips_illegal
    [of ascii_codec "[0x61, 0xD800, 0x09, 0xFFFE, 0x0B, 0x62]" "u ''ascii''"
        "[0x61, 0x00, 0x0A, 0x1F, 0x62]" "[0x61, 0x00, 0x0A, 0x1F, 0x62]"]
  by (simp add: ascii_codec_def spec_illegal_char_def)

section \<open>Evaluation helpers\<close>

lemma xml_safe_unicode_Str: "xml_safe_unicode decode (Str s) enc = Inr (filter (\<lambda>c. \<not> spec_illegal_char c) s)"
  by (simp add: xml_safe_unicode_def re_sub_empty_filter invalid_re_is_spec_illegal)

lemma report_captured_cases:
  "report_captured decode name captured enc =
     Inr (case captured of None \<Rightarrow> [] | Some text \<Rightarrow>
            if text = [] then [] else [Element name [] [CDATASection (filter (\<lambda>c. \<not> spec_illegal_char c) text)]])"
  by (simp add: report_captured_def xml_safe_unicode_Str split: option.splits)

lemma u_eq_iff [simp]: "(u a = u b) = (a = b)"
proof -
  have "inj (of_char :: char \<Rightarrow> nat)"
    by (rule injI) simp
  then show ?thesis
    unfolding u_def by (simp add: inj_map_eq_map)
qed

lemma u_eq_Nil_iff [simp]: "(u a = []) = (a = [])" "([] = u a) = (a = [])"
  by (auto simp: u_def)

lemma elem_name_not_system:
  "elem_name outc \<noteq> u ''system-out''" "elem_name outc \<noteq> u ''system-err''"
  by (cases outc; simp add: elem_name_def)+

lemma report_diagnostic_name:
  "report_diagnostic decode t enc = Inr d \<Longrightarrow> node_name d = elem_name (outcome t)"
  by (auto simp: report_diagnostic_def xml_safe_unicode_Str split: if_splits err_value.splits)

lemma report_testcase_children:
  "report_testcase decode suite t enc = Inr testcase \<Longrightarrow>
     children_named testcase (u ''system-out'') =
       (case std_output t of None \<Rightarrow> [] | Some text \<Rightarrow>
          if text = [] then []
          else [Element (u ''system-out'') [] [CDATASection (filter (\<lambda>c. \<not> spec_illegal_char c) text)]])
     \<and> children_named testcase (u ''system-err'') =
       (case err_output t of None \<Rightarrow> [] | Some text \<Rightarrow>
          if text = [] then []
          else [Element (u ''system-err'') [] [CDATASection (filter (\<lambda>c. \<not> spec_illegal_char c) text)]])"
  by (auto simp: report_testcase_def report_captured_cases children_named_def
      elem_name_not_system dest!: report_diagnostic_name
      split: if_splits sum.splits option.splits)

lemma test_method_name_sample: "test_method_name (u ''pkg.mod.CaseA.test_one'') = u ''test_one''"
  by (simp add: test_method_name_def u_def)
lemma format_3f_zero: "format_3f 0 = u ''0.000''"
  by (simp add: format_3f_def u_def str_nat.simps)
lemma legal_hello: "filter (\<lambda>c. \<not> spec_illegal_char c) (u ''hello'') = u ''hello''"
  by (simp add: spec_illegal_char_def u_def)

section \<open>Failures, errors and times in the rendered suite\<close>

text \<open>
  Claim C1, evaluated on the source.  One test is run and reported through
  \<open>addFailure\<close>.  The suite's element then has \<open>failures="0"\<close> and \<open>errors="1"\<close>:
  \<open>addFailure\<close> builds its record with the outcome \<open>ERROR\<close> and appends it to
  \<open>errors\<close>, so the failure is counted as an error.
\<close>

theorem addFailure_is_counted_as_error:
  "map (\<lambda>(suite, tests). (suite, attributes (report_testsuite suite (u ''X'') tests)))
      (get_info_by_testcase (fst (exec_events
         [StartTest sample_test 1000, AddFailure sample_test sample_exc, StopTest sample_test 1500]
         (sample_result True False))))
   = [(u ''pkg.mod.CaseA'',
       [(u ''name'', u ''pkg.mod.CaseA-X''), (u ''tests'', u ''1''), (u ''time'', u ''0.500''),
        (u ''failures'', u ''0''), (u ''errors'', u ''1'')])]"
  by code_simp

text \<open>
  Claim C2, evaluated on the source.  Elapsed times are disabled, the test starts at clock
  reading 1.000 and stops at 1.500.  The \<open>time\<close> attributes of the suite and of the test
  case are \<open>0.500\<close>, not \<open>0.000\<close>: the callback calls \<open>test_finished\<close>, which stores
  \<open>stop_time - start_time\<close> in the record, before it sets the two clock attributes to 0.
\<close>

theorem elapsed_times_disabled_keeps_time:
  "map (\<lambda>(suite, tests).
        (get_attribute (report_testsuite suite (u ''X'') tests) (u ''time''),
         map (\<lambda>t. map_sum id (\<lambda>x. get_attribute x (u ''time''))
                   (report_testcase ascii_codec suite t (u ''utf-8''))) tests))
      (get_info_by_testcase (fst (exec_events
         [StartTest sample_test 1000, AddSuccess sample_test, StopTest sample_test 1500]
         (sample_result False False))))
   = [(Some (u ''0.500''), [Inr (Some (u ''0.500''))])]"
  by code_simp

section \<open>The diagnostic element\<close>

lemma report_diagnostic_exc:
  assumes "outcome t \<noteq> SKIP" and "err t = ExcInfo e"
  shows "report_diagnostic decode t enc =
           Inr (Element (elem_name (outcome t))
                  [ (u ''type'', exc_type_name e),
                    (u ''message'', filter (\<lambda>c. \<not> spec_illegal_char c) (exc_value_str e)) ]
                  [CDATASection (filter (\<lambda>c. \<not> spec_illegal_char c) (test_exception_info t))])"
  using assms by (simp add: report_diagnostic_def xml_safe_unicode_Str)

lemma report_testcase_exc:
  assumes "outcome t = FAILURE \<or> outcome t = ERROR" and "err t = ExcInfo e"
  shows "\<exists>rest. report_testcase decode suite t enc =
           Inr (Element (u ''testcase'')
                  [ (u ''classname'', suite),
                    (u ''name'', test_method_name (test_id t)),
                    (u ''time'', format_3f (elapsed_time t)) ]
                  (Element (elem_name (outcome t))
                     [ (u ''type'', exc_type_name e),
                       (u ''message'', filter (\<lambda>c. \<not> spec_illegal_char c) (exc_value_str e)) ]
                     [CDATASection (filter (\<lambda>c. \<not> spec_illegal_char c) (test_exception_info t))]
                   # rest))"
proof -
  from assms(1) have ns: "outcome t \<noteq> SKIP" and nsu: "outcome t \<noteq> SUCCESS"
    by auto
  show ?thesis
    by (simp add: report_testcase_def report_diagnostic_exc [OF ns assms(2)] nsu
        report_captured_cases)
qed

text \<open>
  Claim C6 as stated fails.  For an error whose message is the two lines \<open>a\<close> and \<open>b\<close>
  the \<open>message\<close> attribute is the whole text \<open>a\nb\<close>; it is neither the first line of
  the message nor the first line of the formatted trace.
\<close>

theorem message_is_not_first_line:
  "map_sum id (\<lambda>x. get_attribute x (u ''message''))
       (report_diagnostic ascii_codec
          (new_TestInfo sample_test ERROR (ExcInfo sample_exc) None None) (u ''utf-8''))
     = Inr (Some (u ''a'' @ [10] @ u ''b''))
   \<and> spec_first_line (exc_value_str sample_exc) = u ''a''
   \<and> spec_first_line (exc_info_to_string sample_exc) = u ''Traceback''
   \<and> u ''a'' @ [10] @ u ''b'' \<noteq> u ''a''
   \<and> u ''a'' @ [10] @ u ''b'' \<noteq> u ''Traceback''"
  by (simp add: report_diagnostic_def new_TestInfo_def sample_exc_def xml_safe_unicode_Str
      spec_illegal_char_def u_def get_attribute_def elem_name_def spec_first_line_def)

text \<open>
  Claim C6, amended.  For a record whose outcome is Failure or Error and whose \<open>err\<close> is
  an exception triple, the test case is rendered, and its first child is the diagnostic
  element: it is named \<open>failure\<close> or \<open>error\<close> after the outcome, its \<open>type\<close> attribute
  is the name of the exception class, its \<open>message\<close> attribute is the whole text of the
  exception value (all its lines) with the illegal characters removed, and its only
  child is a CDATA section holding the record's formatted trace with the illegal
  characters removed.  For a record built by \<open>_TestInfo.__init__\<close> that trace is the
  library's \<open>_exc_info_to_string\<close> of the triple.
\<close>

theorem diagnostic_of_failure_or_error:
  assumes "outcome t = FAILURE \<or> outcome t = ERROR" and "err t = ExcInfo e"
  shows "(\<exists>rest. report_testcase decode suite t enc =
           Inr (Element (u ''testcase'')
                  [ (u ''classname'', suite),
                    (u ''name'', test_method_name (test_id t)),
                    (u ''time'', format_3f (elapsed_time t)) ]
                  (Element (if outcome t = FAILURE then u ''failure'' else u ''error'')
                     [ (u ''type'', exc_type_name e),
                       (u ''message'', filter (\<lambda>c. \<not> spec_illegal_char c) (exc_value_str e)) ]
                     [CDATASection (filter (\<lambda>c. \<not> spec_illegal_char c) (test_exception_info t))]
                   # rest)))
         \<and> test_exception_info (new_TestInfo test (outcome t) (ExcInfo e) so eo)
             = exc_info_to_string e"
proof -
  have n: "elem_name (outcome t) = (if outcome t = FAILURE then u ''failure'' else u ''error'')"
    using assms(1) by (auto simp: elem_name_def)
  have a: "\<exists>rest. report_testcase decode suite t enc =
           Inr (Element (u ''testcase'')
                  [ (u ''classname'', suite),
                    (u ''name'', test_method_name (test_id t)),
                    (u ''time'', format_3f (elapsed_time t)) ]
                  (Element (if outcome t = FAILURE then u ''failure'' else u ''error'')
                     [ (u ''type'', exc_type_name e),
                       (u ''message'', filter (\<lambda>c. \<not> spec_illegal_char c) (exc_value_str e)) ]
                     [CDATASection (filter (\<lambda>c. \<not> spec_illegal_char c) (test_exception_info t))]
                   # rest))"
    using report_testcase_exc [OF assms, of decode suite enc] unfolding n .
  have b: "test_exception_info (new_TestInfo test (outcome t) (ExcInfo e) so eo) = exc_info_to_string e"
    using assms(1) by (auto simp: new_TestInfo_def)
  from a b show ?thesis by simp
qed

theorem diagnostic_of_failure_or_error_witness:
  "outcome (new_TestInfo sample_test ERROR (ExcInfo sample_exc) None None) = ERROR
   \<and> err (new_TestInfo sample_test ERROR (ExcInfo sample_exc) None None) = ExcInfo sample_exc
   \<and> report_testcase ascii_codec (u ''pkg.mod.CaseA'')
        (new_TestInfo sample_test ERROR (ExcInfo sample_exc) None None) (u ''utf-8'')
      = Inr (Element (u ''testcase'')
               [ (u ''classname'', u ''pkg.mod.CaseA''), (u ''name'', u ''test_one''),
                 (u ''time'', u ''0.000'') ]
               [ Element (u ''error'')
                   [ (u ''type'', u ''AssertionError''), (u ''message'', u ''a'' @ [10] @ u ''b'') ]
                   [CDATASection (u ''Traceback'')] ])"
proof -
  have o: "outcome (new_TestInfo sample_test ERROR (ExcInfo sample_exc) None None) = FAILURE
           \<or> outcome (new_TestInfo sample_test ERROR (ExcInfo sample_exc) None None) = ERROR"
    by (simp add: new_TestInfo_def)
  have e: "err (new_TestInfo sample_test ERROR (ExcInfo sample_exc) None None) = ExcInfo sample_exc"
    by (simp add: new_TestInfo_def)
  have c: "report_testcase ascii_codec (u ''pkg.mod.CaseA'')
        (new_TestInfo sample_test ERROR (ExcInfo sample_exc) None None) (u ''utf-8'')
      = Inr (Element (u ''testcase'')
               [ (u ''classname'', u ''pkg.mod.CaseA''), (u ''name'', u ''test_one''),
                 (u ''time'', u ''0.000'') ]
               [ Element (u ''error'')
                   [ (u ''type'', u ''AssertionError''), (u ''message'', u ''a'' @ [10] @ u ''b'') ]
                   [CDATASection (u ''Traceback'')] ])"
    by (simp add: report_testcase_def report_diagnostic_def new_TestInfo_def sample_exc_def
        sample_test_def xml_safe_unicode_Str report_captured_cases elem_name_def
        test_method_name_def format_3f_zero spec_illegal_char_def u_def)
  show ?thesis
    using diagnostic_of_failure_or_error [OF o e, of ascii_codec "u ''pkg.mod.CaseA''" "u ''utf-8''"] c
    by (simp add: new_TestInfo_def)
qed

section \<open>The channels during and after a run\<close>

lemma same_channel_refl [simp]: "same_channel a a"
  by (induction a) auto

lemma same_channel_write [simp]: "same_channel (stream_write a text) b = same_channel a b"
  by (induction a b rule: same_channel.induct) auto


lemma captures_write [simp]: "captures (stream_write a text) orig = captures a orig"
  by (cases a) auto

lemma captures_cases: "captures a orig \<Longrightarrow> \<exists>c d. a = DelegateIO c d \<and> same_channel d orig"
  by (cases a) auto

lemma new_record_patched:
  "patched out errs s \<Longrightarrow> new_record test outc e s = Inr (r, s') \<Longrightarrow> patched out errs s'"
  by (cases "sys_stdout s"; cases "sys_stderr s")
     (auto simp: patched_def new_record_def alloc_def split: if_splits)

lemma prepare_callback_patched [simp]:
  "patched out errs (prepare_callback a tgt v sh s) = patched out errs s"
  by (cases tgt) (simp_all add: prepare_callback_def patched_def)

lemma patched_errors_update [simp]: "patched out errs (s\<lparr>errors := x\<rparr>) = patched out errs s"
  by (simp add: patched_def)

lemma patched_skipped_update [simp]: "patched out errs (s\<lparr>skipped := x\<rparr>) = patched out errs s"
  by (simp add: patched_def)

text \<open>What \<open>test_finished\<close>, the callback and \<open>stopTest\<close> leave untouched.\<close>

lemma test_finished_frame:
  assumes "test_finished ref s = (s', r)"
  shows "sys_stdout s' = sys_stdout s \<and> sys_stderr s' = sys_stderr s
         \<and> successes s' = successes s \<and> failures s' = failures s
         \<and> errors s' = errors s \<and> skipped s' = skipped s
         \<and> callback s' = callback s \<and> per_test_output s' = per_test_output s
         \<and> elapsed_times s' = elapsed_times s
         \<and> result_test_index s' = result_test_index s
         \<and> length (heap s') = length (heap s)"
  using assms
  by (auto simp: test_finished_def Let_def split: option.splits)

lemma run_callback_frame:
  assumes "run_callback cb s = (s', r)"
  shows "sys_stdout s' = sys_stdout s \<and> sys_stderr s' = sys_stderr s
         \<and> successes s' = successes s \<and> failures s' = failures s
         \<and> errors s' = errors s \<and> skipped s' = skipped s
         \<and> callback s' = callback s \<and> per_test_output s' = per_test_output s
         \<and> result_test_index s' = result_test_index s
         \<and> length (heap s') = length (heap s)"
proof -
  obtain s1 r1 where t: "test_finished (fst cb) s = (s1, r1)"
    by (cases "test_finished (fst cb) s")
  from assms t have "s' = s1 \<or> s' = s1\<lparr>start_time := Some 0, stop_time := Some 0\<rparr>"
    by (cases r1) (auto simp: run_callback_def split: if_splits)
  with test_finished_frame [OF t] show ?thesis by auto
qed

lemma stopTest_frame:
  assumes "stopTest test now s = (s', r)"
  shows "sys_stdout s' = sys_stdout s \<and> sys_stderr s' = sys_stderr s
         \<and> successes s' = successes s \<and> failures s' = failures s
         \<and> errors s' = errors s \<and> skipped s' = skipped s
         \<and> per_test_output s' = per_test_output s
         \<and> length (heap s') = length (heap s)"
proof (cases "callback s")
  case None
  with assms show ?thesis by (auto simp: stopTest_def Let_def)
next
  case (Some cb)
  obtain s2 r2 where c: "run_callback cb (s\<lparr>stop_time := Some now\<rparr>) = (s2, r2)"
    by (cases "run_callback cb (s\<lparr>stop_time := Some now\<rparr>)")
  from assms Some c have
    "s' = s2 \<or> s' = s2\<lparr>callback := None, result_test_index := result_test_index s2 + 1\<rparr>"
    by (cases r2) (auto simp: stopTest_def Let_def)
  with run_callback_frame [OF c] show ?thesis by auto
qed

lemma stopTest_patched:
  "patched out errs s \<Longrightarrow> stopTest t n s = (s', r) \<Longrightarrow> patched out errs s'"
  using stopTest_frame [of t n s s' r] by (simp add: patched_def)

lemma step_patched:
  assumes "patched out errs s" and "step ev s = (s', r)" and "\<not> assigns_channel ev"
  shows "patched out errs s'"
proof (cases ev)
  case (StartTest t n)
  with assms show ?thesis
    by (auto simp: startTest_def patched_def)
next
  case (AddSuccess t)
  with assms show ?thesis
    by (auto simp: addSuccess_def lift_result_def split: sum.splits dest: new_record_patched)
next
  case (AddFailure t e)
  with assms show ?thesis
    by (auto simp: addFailure_def lift_result_def split: sum.splits dest: new_record_patched)
next
  case (AddError t e)
  with assms show ?thesis
    by (auto simp: addError_def lift_result_def split: sum.splits dest: new_record_patched)
next
  case (AddSkip t e)
  with assms show ?thesis
    by (auto simp: addSkip_def lift_result_def split: sum.splits dest: new_record_patched)
next
  case (StopTest t n)
  with assms show ?thesis
    by (auto dest: stopTest_patched)
next
  case (WriteOut t)
  with assms show ?thesis
    by (auto simp: patched_def)
next
  case (WriteErr t)
  with assms show ?thesis
    by (auto simp: patched_def)
next
  case (SetStdout x)
  with assms(3) show ?thesis by simp
next
  case (SetStderr x)
  with assms(3) show ?thesis by simp
qed

lemma exec_trace_patched:
  assumes "patched out errs s" and "list_all (\<lambda>ev. \<not> assigns_channel ev) evs"
  shows "list_all (patched out errs) (exec_trace evs s)"
  using assms
proof (induction evs arbitrary: s)
  case Nil
  then show ?case by simp
next
  case (Cons ev evs)
  obtain s1 r1 where st: "step ev s = (s1, r1)" by (cases "step ev s")
  from Cons.prems(2) have na: "\<not> assigns_channel ev"
    and rest: "list_all (\<lambda>ev. \<not> assigns_channel ev) evs"
    by simp_all
  have p1: "patched out errs s1" using step_patched [OF Cons.prems(1) st na] .
  show ?case
  proof (cases r1)
    case None
    with st Cons.prems(1) Cons.IH [OF p1 rest] show ?thesis by simp
  next
    case (Some e)
    with st Cons.prems(1) p1 show ?thesis by simp
  qed
qed

lemma last_exec_trace: "last (exec_trace evs s) = fst (exec_events evs s)"
proof (induction evs arbitrary: s)
  case Nil
  show ?case by simp
next
  case (Cons ev evs)
  obtain s1 r1 where st: "step ev s = (s1, r1)" by (cases "step ev s")
  have ne: "exec_trace evs s1 \<noteq> []" by (cases evs) simp_all
  show ?case
    using st Cons.IH [of s1] ne by (cases r1) simp_all
qed

lemma exec_trace_nonempty: "exec_trace evs s \<noteq> []"
  by (cases evs) simp_all

lemma exec_events_patched:
  assumes "patched out errs s" and "list_all (\<lambda>ev. \<not> assigns_channel ev) evs"
    and "exec_events evs s = (s', r)"
  shows "patched out errs s'"
proof -
  have "list_all (patched out errs) (exec_trace evs s)"
    using exec_trace_patched [OF assms(1,2)] .
  then have "patched out errs (last (exec_trace evs s))"
    using exec_trace_nonempty [of evs s] by (simp add: list_all_iff)
  then show ?thesis
    using assms(3) by (simp add: last_exec_trace)
qed







section \<open>Grouping\<close>

lemma set_first_seen [simp]: "set (first_seen xs) = set xs"
  by (induction xs) auto

lemma distinct_first_seen [simp]: "distinct (first_seen xs)"
  by (induction xs) auto

lemma first_seen_snoc:
  "first_seen (xs @ [x]) = (if x \<in> set xs then first_seen xs else first_seen xs @ [x])"
  by (induction xs) auto

lemma map_fst_spec_group [simp]: "map fst (spec_group l) = first_seen (map fst l)"
  by (simp add: spec_group_def comp_def)

lemma group_step_spec_group:
  "group_step (spec_group l) x = spec_group (l @ [x])"
proof (cases "fst x \<in> fst ` set l")
  case True
  then show ?thesis
    by (auto simp: group_step_def spec_group_def first_seen_snoc)
next
  case False
  then have "\<forall>y\<in>set l. fst y \<noteq> fst x"
    by (metis imageI)
  then have "filter (\<lambda>y. fst y = fst x) l = []"
    by (simp add: filter_empty_conv)
  with False show ?thesis
    by (auto simp: group_step_def spec_group_def first_seen_snoc)
qed

lemma group_tests_spec: "foldl group_step [] l = spec_group l"
proof (induction l rule: rev_induct)
  case Nil
  show ?case by (simp add: spec_group_def)
next
  case (snoc x xs)
  then show ?case by (simp add: group_step_spec_group)
qed

lemma spec_group_sorted:
  assumes "sorted (map (\<lambda>x. test_index (snd x)) l)"
  shows "list_all (\<lambda>g. sorted (map test_index (snd g))) (spec_group l)"
proof -
  have "sorted (map test_index (map snd (filter (\<lambda>x. fst x = suite) l)))" for suite
    using sorted_filter [OF assms, of "\<lambda>x. fst x = suite"] by (simp add: comp_def)
  then show ?thesis
    by (simp add: spec_group_def list_all_iff)
qed

section \<open>The collector along the lifecycle\<close>

lemma new_record_result:
  assumes "patched out errs s"
  shows "\<exists>s1 info. new_record test outc e s = Inr (length (heap s), s1)
           \<and> heap s1 = heap s @ [info] \<and> test_index info = 0 \<and> outcome info = outc
           \<and> err info = e
           \<and> successes s1 = successes s \<and> failures s1 = failures s
           \<and> errors s1 = errors s \<and> skipped s1 = skipped s
           \<and> callback s1 = callback s \<and> result_test_index s1 = result_test_index s
           \<and> start_time s1 = start_time s \<and> stop_time s1 = stop_time s
           \<and> elapsed_times s1 = elapsed_times s \<and> per_test_output s1 = per_test_output s
           \<and> encoding s1 = encoding s \<and> patched out errs s1"
proof -
  from assms obtain c d c' d' where
    st: "sys_stdout s = DelegateIO c d" "sys_stderr s = DelegateIO c' d'"
    unfolding patched_def by (meson captures_cases)
  show ?thesis
    using assms st
    by (cases "per_test_output s") (simp_all add: new_record_def alloc_def new_TestInfo_def patched_def)
qed

lemma add_step:
  assumes "is_add ev" and "patched out errs s"
  shows "\<exists>s' info v sh. step ev s = (s', None)
           \<and> heap s' = heap s @ [info] \<and> test_index info = 0
           \<and> mset (all_refs s') = add_mset (length (heap s)) (mset (all_refs s))
           \<and> callback s' = Some (length (heap s), v, sh)
           \<and> result_test_index s' = result_test_index s
           \<and> start_time s' = start_time s
           \<and> patched out errs s'"
proof (cases ev)
  case (AddSuccess test)
  from new_record_result [OF assms(2), of test SUCCESS NoErr] obtain s1 info where
    "new_record test SUCCESS NoErr s = Inr (length (heap s), s1)"
    "heap s1 = heap s @ [info]" "test_index info = 0"
    "successes s1 = successes s" "failures s1 = failures s"
    "errors s1 = errors s" "skipped s1 = skipped s"
    "result_test_index s1 = result_test_index s" "start_time s1 = start_time s"
    "patched out errs s1"
    by blast
  with AddSuccess show ?thesis
    by (simp add: addSuccess_def lift_result_def prepare_callback_def all_refs_def patched_def)
next
  case (AddFailure test e)
  from new_record_result [OF assms(2), of test ERROR "ExcInfo e"] obtain s1 info where
    "new_record test ERROR (ExcInfo e) s = Inr (length (heap s), s1)"
    "heap s1 = heap s @ [info]" "test_index info = 0"
    "successes s1 = successes s" "failures s1 = failures s"
    "errors s1 = errors s" "skipped s1 = skipped s"
    "result_test_index s1 = result_test_index s" "start_time s1 = start_time s"
    "patched out errs s1"
    by blast
  with AddFailure show ?thesis
    by (simp add: addFailure_def lift_result_def prepare_callback_def all_refs_def patched_def)
next
  case (AddError test e)
  from new_record_result [OF assms(2), of test ERROR "ExcInfo e"] obtain s1 info where
    "new_record test ERROR (ExcInfo e) s = Inr (length (heap s), s1)"
    "heap s1 = heap s @ [info]" "test_index info = 0"
    "successes s1 = successes s" "failures s1 = failures s"
    "errors s1 = errors s" "skipped s1 = skipped s"
    "result_test_index s1 = result_test_index s" "start_time s1 = start_time s"
    "patched out errs s1"
    by blast
  with AddError show ?thesis
    by (simp add: addError_def lift_result_def prepare_callback_def all_refs_def patched_def)
next
  case (AddSkip test reason)
  from new_record_result [OF assms(2), of test SKIP "Reason reason"] obtain s1 info where
    "new_record test SKIP (Reason reason) s = Inr (length (heap s), s1)"
    "heap s1 = heap s @ [info]" "test_index info = 0"
    "successes s1 = successes s" "failures s1 = failures s"
    "errors s1 = errors s" "skipped s1 = skipped s"
    "result_test_index s1 = result_test_index s" "start_time s1 = start_time s"
    "patched out errs s1"
    by blast
  with AddSkip show ?thesis
    by (simp add: addSkip_def lift_result_def prepare_callback_def all_refs_def patched_def)
qed (use assms(1) in simp_all)

lemma heap_update_twice:
  "h[r := (h[r := (h ! r)\<lparr>test_index := i\<rparr>] ! r)\<lparr>elapsed_time := d\<rparr>]
     = h[r := (h ! r)\<lparr>test_index := i, elapsed_time := d\<rparr>]"
proof (cases "r < length h")
  case True
  then show ?thesis by simp
next
  case False
  then have "length h \<le> r" by simp
  then show ?thesis by (simp add: list_update_beyond)
qed

lemma stop_step:
  assumes "callback s = Some (r, v, sh)" and "start_time s = Some t0"
  shows "\<exists>s'. stopTest test now s = (s', None)
           \<and> heap s' = (heap s)[r := (heap s ! r)\<lparr>test_index := result_test_index s,
                                                  elapsed_time := now - t0\<rparr>]
           \<and> all_refs s' = all_refs s
           \<and> callback s' = None
           \<and> result_test_index s' = Suc (result_test_index s)
           \<and> sys_stdout s' = sys_stdout s \<and> sys_stderr s' = sys_stderr s"
  using assms
  by (simp add: stopTest_def run_callback_def test_finished_def all_refs_def Let_def
      heap_update_twice)

lemma lifecycle_inv_write:
  "lifecycle_inv p n (s\<lparr>sys_stdout := x\<rparr>) = lifecycle_inv p n s"
  "lifecycle_inv p n (s\<lparr>sys_stderr := y\<rparr>) = lifecycle_inv p n s"
  by (auto simp: lifecycle_inv_def all_refs_def)

lemma lifecycle_inv_start:
  "lifecycle_inv Idle n s \<Longrightarrow> lifecycle_inv Started n (startTest test now s)"
  by (auto simp: lifecycle_inv_def all_refs_def startTest_def)

lemma lifecycle_inv_add:
  assumes "lifecycle_inv Started n s" and "is_add ev" and "patched out errs s"
  shows "\<exists>s'. step ev s = (s', None) \<and> lifecycle_inv Reported n s' \<and> patched out errs s'"
proof -
  from add_step [OF assms(2,3)] obtain s' info v sh where
    a: "step ev s = (s', None)" "heap s' = heap s @ [info]" "test_index info = 0"
       "mset (all_refs s') = add_mset (length (heap s)) (mset (all_refs s))"
       "callback s' = Some (length (heap s), v, sh)"
       "result_test_index s' = result_test_index s" "start_time s' = start_time s"
       "patched out errs s'"
    by blast
  from assms(1) have i: "result_test_index s = n" "map test_index (take n (heap s)) = [0..<n]"
    "length (heap s) = n" "start_time s \<noteq> None"
    unfolding lifecycle_inv_def by auto
  from assms(1) have i5: "mset (all_refs s) = mset [0..<length (heap s)]"
    unfolding lifecycle_inv_def by blast
  have m: "mset (all_refs s') = mset [0..<length (heap s')]"
    unfolding a(2) a(4) i5 by simp
  have "lifecycle_inv Reported n s'"
    unfolding lifecycle_inv_def using a(2,3,5,6,7) i(1,2,3,4) m by (simp add: nth_append)
  with a show ?thesis by blast
qed

lemma lifecycle_inv_stop:
  assumes "lifecycle_inv Reported n s"
  shows "\<exists>s'. stopTest test now s = (s', None) \<and> lifecycle_inv Idle (Suc n) s'
           \<and> sys_stdout s' = sys_stdout s \<and> sys_stderr s' = sys_stderr s"
proof -
  from assms have i0: "result_test_index s = n" "map test_index (take n (heap s)) = [0..<n]"
       "length (heap s) = Suc n" "\<exists>v sh. callback s = Some (n, v, sh)"
       "start_time s \<noteq> None"
    unfolding lifecycle_inv_def by auto
  from assms have "mset (all_refs s) = mset [0..<length (heap s)]"
    unfolding lifecycle_inv_def by blast
  with i0 obtain v sh t0 where
    i: "result_test_index s = n" "map test_index (take n (heap s)) = [0..<n]"
       "length (heap s) = Suc n" "callback s = Some (n, v, sh)" "start_time s = Some t0"
       "mset (all_refs s) = mset [0..<length (heap s)]"
    by auto
  from stop_step [OF i(4,5), of test now] obtain s' where
    a: "stopTest test now s = (s', None)"
       "heap s' = (heap s)[n := (heap s ! n)\<lparr>test_index := result_test_index s,
                                              elapsed_time := now - t0\<rparr>]"
       "all_refs s' = all_refs s" "callback s' = None"
       "result_test_index s' = Suc (result_test_index s)"
       "sys_stdout s' = sys_stdout s" "sys_stderr s' = sys_stderr s"
    by blast
  have h: "heap s = take n (heap s) @ [heap s ! n]"
    using i(3) by (metis lessI take_Suc_conv_app_nth take_all order_refl)
  have "heap s' = take n (heap s) @ [(heap s ! n)\<lparr>test_index := n, elapsed_time := now - t0\<rparr>]"
    unfolding a(2) i(1) using i(3)
    by (subst (1) h) (simp add: list_update_append)
  then have "map test_index (take (Suc n) (heap s')) = [0..<Suc n]"
    using i(2,3) by simp
  moreover have "length (heap s') = Suc n" using a(2) i(3) by simp
  moreover have "mset (all_refs s') = mset [0..<length (heap s')]"
    unfolding a(2) a(3) length_list_update by (rule i(6))
  ultimately have "lifecycle_inv Idle (Suc n) s'"
    using a(4,5) i(1) unfolding lifecycle_inv_def by simp
  with a show ?thesis by blast
qed

lemma lifecycle_step:
  assumes "lifecycle p (ev # evs)" and "lifecycle_inv p n s" and "patched out errs s"
  shows "\<exists>s' p'. step ev s = (s', None) \<and> lifecycle p' evs
           \<and> lifecycle_inv p' (if is_stop ev then Suc n else n) s' \<and> patched out errs s'"
proof (cases ev)
  case (StartTest test now)
  with assms(1) have p: "p = Idle" "lifecycle Started evs"
    by (cases p; simp)+
  show ?thesis
    using StartTest p assms(2,3) lifecycle_inv_start [of n s test now]
    by (auto simp: patched_def startTest_def)
next
  case (StopTest test now)
  with assms(1) have p: "p = Reported" "lifecycle Idle evs"
    by (cases p; simp)+
  from lifecycle_inv_stop [of n s test now] assms(2) p obtain s' where
    "stopTest test now s = (s', None)" "lifecycle_inv Idle (Suc n) s'"
    "sys_stdout s' = sys_stdout s" "sys_stderr s' = sys_stderr s"
    by blast
  with StopTest p assms(3) show ?thesis
    by (auto simp: patched_def)
next
  case (WriteOut wtext)
  with assms(1) have "lifecycle p evs" by (cases p; simp)
  with WriteOut assms(2,3) show ?thesis
    by (auto simp: lifecycle_inv_write patched_def)
next
  case (WriteErr wtext)
  with assms(1) have "lifecycle p evs" by (cases p; simp)
  with WriteErr assms(2,3) show ?thesis
    by (auto simp: lifecycle_inv_write patched_def)
next
  case (AddSuccess test)
  with assms(1) have p: "p = Started" "lifecycle Reported evs"
    by (cases p; simp)+
  from lifecycle_inv_add [of n s ev out errs] assms(2,3) p AddSuccess show ?thesis
    by auto
next
  case (AddFailure test e)
  with assms(1) have p: "p = Started" "lifecycle Reported evs"
    by (cases p; simp)+
  from lifecycle_inv_add [of n s ev out errs] assms(2,3) p AddFailure show ?thesis
    by auto
next
  case (AddError test e)
  with assms(1) have p: "p = Started" "lifecycle Reported evs"
    by (cases p; simp)+
  from lifecycle_inv_add [of n s ev out errs] assms(2,3) p AddError show ?thesis
    by auto
next
  case (AddSkip test reason)
  with assms(1) have p: "p = Started" "lifecycle Reported evs"
    by (cases p; simp)+
  from lifecycle_inv_add [of n s ev out errs] assms(2,3) p AddSkip show ?thesis
    by auto
next
  case (SetStdout x)
  with assms(1) show ?thesis by (cases p; simp)
next
  case (SetStderr x)
  with assms(1) show ?thesis by (cases p; simp)
qed

lemma completed_Cons: "completed (ev # evs) = (if is_stop ev then Suc (completed evs) else completed evs)"
  by (simp add: completed_def)

lemma lifecycle_run:
  assumes "lifecycle p evs" and "lifecycle_inv p n s" and "patched out errs s"
  shows "\<exists>s'. exec_events evs s = (s', None) \<and> lifecycle_inv Idle (n + completed evs) s'
           \<and> patched out errs s'"
  using assms
proof (induction evs arbitrary: p n s)
  case Nil
  then have "p = Idle" by simp
  with Nil show ?case by (simp add: completed_def)
next
  case (Cons ev evs)
  from lifecycle_step [OF Cons.prems] obtain s1 p1 where
    st: "step ev s = (s1, None)" "lifecycle p1 evs"
        "lifecycle_inv p1 (if is_stop ev then Suc n else n) s1" "patched out errs s1"
    by blast
  from Cons.IH [OF st(2,3,4)] obtain s' where
    "exec_events evs s1 = (s', None)"
    "lifecycle_inv Idle ((if is_stop ev then Suc n else n) + completed evs) s'"
    "patched out errs s'"
    by blast
  with st(1) show ?case
    by (auto simp: completed_Cons)
qed

lemma init_inv:
  "lifecycle_inv Idle 0 (XMLTestResult_init (DelegateIO c1 d1) (DelegateIO c2 d2) elapsed per_test enc)"
  "patched d1 d2 (XMLTestResult_init (DelegateIO c1 d1) (DelegateIO c2 d2) elapsed per_test enc)"
  by (simp_all add: lifecycle_inv_def XMLTestResult_init_def all_refs_def patched_def)

lemma index_multiset:
  assumes "mset refs = mset [0..<length h]" and "map test_index h = [0..<length h]"
  shows "mset (map (\<lambda>r. test_index (h ! r)) refs) = mset [0..<length h]"
proof -
  have n: "map (\<lambda>r. test_index (h ! r)) [0..<length h] = map test_index h"
    using map_nth [of h] by (metis (no_types, lifting) map_map comp_def map_eq_conv)
  have "mset (map (\<lambda>r. test_index (h ! r)) refs) = image_mset (\<lambda>r. test_index (h ! r)) (mset refs)"
    by (simp only: mset_map)
  also have "\<dots> = image_mset (\<lambda>r. test_index (h ! r)) (mset [0..<length h])"
    by (simp only: assms(1))
  also have "\<dots> = mset (map (\<lambda>r. test_index (h ! r)) [0..<length h])"
    by (simp only: mset_map)
  also have "\<dots> = mset [0..<length h]"
    by (simp only: n assms(2))
  finally show ?thesis .
qed

lemma idle_heap:
  assumes "lifecycle_inv Idle n s"
  shows "length (heap s) = n" "map test_index (heap s) = [0..<n]"
    "mset (all_refs s) = mset [0..<n]" "result_test_index s = n"
proof -
  from assms show l: "length (heap s) = n" unfolding lifecycle_inv_def by auto
  from assms have "map test_index (take n (heap s)) = [0..<n]"
    unfolding lifecycle_inv_def by blast
  with l show "map test_index (heap s) = [0..<n]" by simp
  from assms have "mset (all_refs s) = mset [0..<length (heap s)]"
    unfolding lifecycle_inv_def by blast
  then show "mset (all_refs s) = mset [0..<n]" unfolding l .
  from assms show "result_test_index s = n" unfolding lifecycle_inv_def by blast
qed

lemma index_assigned_at_stop:
  assumes "lifecycle_inv Idle n s" and "patched out errs s" and "is_add ev"
  shows "\<exists>s1 info. exec_events [StartTest test now, ev] s = (s1, None)
           \<and> heap s1 = heap s @ [info] \<and> test_index info = 0
           \<and> n \<in> set (all_refs s1)
           \<and> (\<exists>s2. exec_events [StopTest test now'] s1 = (s2, None)
                 \<and> heap s2 = heap s @ [info\<lparr>test_index := n, elapsed_time := now' - now\<rparr>])"
proof -
  let ?s0 = "startTest test now s"
  have p0: "patched out errs ?s0" using assms(2) by (simp add: patched_def startTest_def)
  have h0: "heap ?s0 = heap s" "all_refs ?s0 = all_refs s"
    "result_test_index ?s0 = result_test_index s" "start_time ?s0 = Some now"
    by (simp_all add: startTest_def all_refs_def)
  from add_step [OF assms(3) p0] obtain s1 info v sh where
    a: "step ev ?s0 = (s1, None)" "heap s1 = heap ?s0 @ [info]" "test_index info = 0"
       "mset (all_refs s1) = add_mset (length (heap ?s0)) (mset (all_refs ?s0))"
       "callback s1 = Some (length (heap ?s0), v, sh)"
       "result_test_index s1 = result_test_index ?s0" "start_time s1 = start_time ?s0"
    by blast
  note i = idle_heap [OF assms(1)]
  have cb: "callback s1 = Some (n, v, sh)" using a(5) h0(1) i(1) by simp
  have st: "start_time s1 = Some now" using a(7) h0(4) by simp
  from stop_step [OF cb st, of test now'] obtain s2 where
    b: "stopTest test now' s1 = (s2, None)"
       "heap s2 = (heap s1)[n := (heap s1 ! n)\<lparr>test_index := result_test_index s1,
                                                elapsed_time := now' - now\<rparr>]"
    by blast
  have e1: "exec_events [StartTest test now, ev] s = (s1, None)"
    using a(1) by simp
  have e2: "exec_events [StopTest test now'] s1 = (s2, None)"
    using b(1) by simp
  have hs1: "heap s1 = heap s @ [info]" using a(2) h0(1) by simp
  have hs2: "heap s2 = heap s @ [info\<lparr>test_index := n, elapsed_time := now' - now\<rparr>]"
    unfolding b(2) hs1 using i(1) i(4) a(6) h0(3) by (simp add: nth_append list_update_append)
  have "n \<in># mset (all_refs s1)"
    unfolding a(4) h0(1) i(1) by simp
  then have mem: "n \<in> set (all_refs s1)" by simp
  from e1 e2 hs1 hs2 mem a(3) show ?thesis by blast
qed

text \<open>
  Claim C3.  Along every run that follows the lifecycle contract, from a fresh result
  object (the channels patched), with \<open>N\<close> completed tests: the run raises nothing; there
  are \<open>N\<close> records, each held exactly once by the four lists of the result; the record
  created \<open>k\<close>-th (the store keeps the order of creation, which is the order of
  completion) carries the index \<open>k\<close>, so the indices are \<open>0, ..., N - 1\<close> without gap
  or duplicate and increase strictly in completion order; and for any further test, after
  its start and its outcome call the new record is already in a list with the index 0 of
  its constructor, and the stop call then gives it the index \<open>N\<close> and its elapsed time.
\<close>

theorem execution_indices:
  assumes "lifecycle Idle evs"
  shows "\<exists>s. exec_events evs (XMLTestResult_init (DelegateIO c1 d1) (DelegateIO c2 d2)
                               elapsed per_test enc) = (s, None)
           \<and> length (heap s) = completed evs
           \<and> mset (all_refs s) = mset [0..<completed evs]
           \<and> map test_index (heap s) = [0..<completed evs]
           \<and> mset (map (\<lambda>r. test_index (heap s ! r)) (all_refs s)) = mset [0..<completed evs]
           \<and> (\<forall>ev test now now'. is_add ev \<longrightarrow>
                 (\<exists>s1 info. exec_events [StartTest test now, ev] s = (s1, None)
                    \<and> heap s1 = heap s @ [info] \<and> test_index info = 0
                    \<and> completed evs \<in> set (all_refs s1)
                    \<and> (\<exists>s2. exec_events [StopTest test now'] s1 = (s2, None)
                          \<and> heap s2 = heap s @ [info\<lparr>test_index := completed evs,
                                                       elapsed_time := now' - now\<rparr>])))"
proof -
  from lifecycle_run [OF assms init_inv(1) init_inv(2), of c1 d1 c2 d2 elapsed per_test enc]
  obtain s where
    r: "exec_events evs (XMLTestResult_init (DelegateIO c1 d1) (DelegateIO c2 d2)
                               elapsed per_test enc) = (s, None)"
       "lifecycle_inv Idle (completed evs) s" "patched d1 d2 s"
    by auto
  note i = idle_heap [OF r(2)]
  have m: "mset (map (\<lambda>r. test_index (heap s ! r)) (all_refs s)) = mset [0..<completed evs]"
    using index_multiset [of "all_refs s" "heap s"] i(1,2,3) by simp
  have "\<exists>s1 info. exec_events [StartTest test now, ev] s = (s1, None)
                    \<and> heap s1 = heap s @ [info] \<and> test_index info = 0
                    \<and> completed evs \<in> set (all_refs s1)
                    \<and> (\<exists>s2. exec_events [StopTest test now'] s1 = (s2, None)
                          \<and> heap s2 = heap s @ [info\<lparr>test_index := completed evs,
                                                       elapsed_time := now' - now\<rparr>])"
    if "is_add ev" for ev test now now'
    using index_assigned_at_stop [OF r(2,3) that] .
  with r(1) i(1,2,3) m show ?thesis by blast
qed

theorem execution_indices_witness:
  "lifecycle Idle sample_run \<and> completed sample_run = 4
   \<and> snd (exec_events sample_run (sample_result True True)) = None
   \<and> map test_index (heap (fst (exec_events sample_run (sample_result True True)))) = [0, 1, 2, 3]
   \<and> all_refs (fst (exec_events sample_run (sample_result True True))) = [0, 1, 3, 2]"
proof -
  have l: "lifecycle Idle sample_run" by code_simp
  have c: "completed sample_run = 4" by code_simp
  have a: "all_refs (fst (exec_events sample_run (sample_result True True))) = [0, 1, 3, 2]"
    by code_simp
  have u: "[0..<4] = [0, 1, 2, 3::nat]" by code_simp
  from execution_indices [OF l, of "[]" "Console 1" "[]" "Console 2" True True "u ''utf-8''"]
  obtain s where
    "exec_events sample_run (sample_result True True) = (s, None)"
    "map test_index (heap s) = [0..<completed sample_run]"
    unfolding sample_result_def by blast
  with l c a u show ?thesis by simp
qed

lemma insort_key_agree:
  assumes "f x = g x" and "\<forall>y\<in>set ys. f y = g y"
  shows "insort_key f x ys = insort_key g x ys"
  using assms by (induction ys) auto

lemma sort_key_agree:
  assumes "\<forall>x\<in>set xs. f x = g x"
  shows "sort_key f xs = sort_key g xs"
  using assms
proof (induction xs)
  case Nil
  show ?case by simp
next
  case (Cons x xs)
  then have "sort_key f xs = sort_key g xs" by simp
  moreover have "insort_key f x (sort_key g xs) = insort_key g x (sort_key g xs)"
    using Cons.prems by (intro insort_key_agree) simp_all
  ultimately show ?case by simp
qed

lemma insort_key_map_image:
  "insort_key k (f x) (map f ys) = map f (insort_key (\<lambda>y. k (f y)) x ys)"
  by (induction ys) auto

lemma sort_key_map_image:
  "sort_key k (map f xs) = map f (sort_key (\<lambda>y. k (f y)) xs)"
  by (induction xs) (simp_all add: insort_key_map_image)

lemma testcase_list_all_refs:
  "testcase_list s = map (\<lambda>r. (test_name (heap s ! r), heap s ! r)) (all_refs s)"
  by (simp add: testcase_list_def all_refs_def)

lemma by_index_completion_order:
  assumes "lifecycle_inv Idle n s"
  shows "by_index (testcase_list s) = map (\<lambda>t. (test_name t, t)) (heap s)"
proof -
  note i = idle_heap [OF assms]
  have ix: "test_index (heap s ! r) = r" if "r < n" for r
  proof -
    have "map test_index (heap s) ! r = [0..<n] ! r" using i(2) by simp
    then show ?thesis using that i(1) by simp
  qed
  have refs: "set (all_refs s) = {0..<n}"
    using i(3) by (metis mset_eq_setD set_upt)
  have "sort_key (\<lambda>r. test_index (heap s ! r)) (all_refs s) = sort_key (\<lambda>r. r) (all_refs s)"
    by (rule sort_key_agree) (simp add: refs ix)
  also have "\<dots> = [0..<n]"
    by (rule properties_for_sort) (simp_all add: i(3))
  finally have so: "sort_key (\<lambda>r. test_index (heap s ! r)) (all_refs s) = [0..<n]" .
  have "by_index (testcase_list s)
          = map (\<lambda>r. (test_name (heap s ! r), heap s ! r))
              (sort_key (\<lambda>r. test_index (heap s ! r)) (all_refs s))"
    unfolding by_index_def testcase_list_all_refs by (simp add: sort_key_map_image)
  also have "\<dots> = map (\<lambda>r. (test_name (heap s ! r), heap s ! r)) [0..<length (heap s)]"
    unfolding so i(1) ..
  also have "\<dots> = map (\<lambda>t. (test_name t, t)) (map (\<lambda>r. heap s ! r) [0..<length (heap s)])"
    by (simp only: map_map comp_def)
  also have "\<dots> = map (\<lambda>t. (test_name t, t)) (heap s)"
    by (simp only: map_nth)
  finally show ?thesis .
qed

text \<open>
  Claim C5.  For every state of the result, \<open>_get_info_by_testcase\<close> flattens the four
  lists (successes, failures, errors, skipped) into one list of records paired with
  their suite names, sorts it by execution index (a permutation of the flattened list,
  ascending), and returns the mapping that holds the suite names in the order in which
  each first appears in the sorted list, without duplicates, each with its records in
  the order of the sorted list, hence in execution-index order.  After a run that
  follows the lifecycle contract the sorted list is the list of all records in the order
  of their completion, so the suites come in the order in which each first appeared in
  the run.
\<close>

theorem get_info_by_testcase_groups:
  "get_info_by_testcase s = spec_group (by_index (testcase_list s))
   \<and> testcase_list s = map (\<lambda>r. (test_name (heap s ! r), heap s ! r)) (all_refs s)
   \<and> mset (by_index (testcase_list s)) = mset (testcase_list s)
   \<and> sorted (map (\<lambda>x. test_index (snd x)) (by_index (testcase_list s)))
   \<and> map fst (get_info_by_testcase s) = first_seen (map fst (by_index (testcase_list s)))
   \<and> distinct (map fst (get_info_by_testcase s))
   \<and> list_all (\<lambda>g. sorted (map test_index (snd g))) (get_info_by_testcase s)
   \<and> (lifecycle Idle evs
        \<and> exec_events evs (XMLTestResult_init (DelegateIO c1 d1) (DelegateIO c2 d2)
                             elapsed per_test enc) = (s, r)
        \<longrightarrow> by_index (testcase_list s) = map (\<lambda>t. (test_name t, t)) (heap s))"
proof -
  have g: "get_info_by_testcase s = spec_group (by_index (testcase_list s))"
    by (simp add: get_info_by_testcase_def group_tests_def group_tests_spec by_index_def)
  have so: "sorted (map (\<lambda>x. test_index (snd x)) (by_index (testcase_list s)))"
    by (simp add: by_index_def)
  have ms: "mset (by_index (testcase_list s)) = mset (testcase_list s)"
    by (simp add: by_index_def)
  have ks: "map fst (get_info_by_testcase s) = first_seen (map fst (by_index (testcase_list s)))"
    by (simp add: g)
  have di: "distinct (map fst (get_info_by_testcase s))"
    by (simp add: ks)
  have la: "list_all (\<lambda>g. sorted (map test_index (snd g))) (get_info_by_testcase s)"
    unfolding g by (rule spec_group_sorted [OF so])
  have lc: "by_index (testcase_list s) = map (\<lambda>t. (test_name t, t)) (heap s)"
    if "lifecycle Idle evs"
      and "exec_events evs (XMLTestResult_init (DelegateIO c1 d1) (DelegateIO c2 d2)
                             elapsed per_test enc) = (s, r)"
  proof -
    from lifecycle_run [OF that(1) init_inv(1) init_inv(2), of c1 d1 c2 d2 elapsed per_test enc]
      that(2)
    have "lifecycle_inv Idle (completed evs) s" by auto
    then show ?thesis by (rule by_index_completion_order)
  qed
  from g testcase_list_all_refs ms so ks di la lc show ?thesis by blast
qed
theorem get_info_by_testcase_groups_witness:
  "lifecycle Idle sample_run
   \<and> map (\<lambda>x. test_index (snd x))
         (testcase_list (fst (exec_events sample_run (sample_result True True)))) = [0, 1, 3, 2]
   \<and> map (\<lambda>g. (fst g, map test_index (snd g)))
         (get_info_by_testcase (fst (exec_events sample_run (sample_result True True))))
       = [(u ''pkg.mod.CaseA'', [0, 2]), (u ''CaseB'', [1, 3])]
   \<and> by_index (testcase_list (fst (exec_events sample_run (sample_result True True))))
       = map (\<lambda>t. (test_name t, t)) (heap (fst (exec_events sample_run (sample_result True True))))"
proof -
  let ?S = "fst (exec_events sample_run (sample_result True True))"
  have l: "lifecycle Idle sample_run" by code_simp
  have e: "exec_events sample_run (XMLTestResult_init (DelegateIO [] (Console 1))
             (DelegateIO [] (Console 2)) True True (u ''utf-8''))
           = (?S, snd (exec_events sample_run (sample_result True True)))"
    by (simp add: sample_result_def)
  have t: "map (\<lambda>x. test_index (snd x)) (testcase_list ?S) = [0, 1, 3, 2]"
    by code_simp
  have g: "map (\<lambda>g. (fst g, map test_index (snd g))) (get_info_by_testcase ?S)
             = [(u ''pkg.mod.CaseA'', [0, 2]), (u ''CaseB'', [1, 3])]"
    by code_simp
  have b: "by_index (testcase_list ?S) = map (\<lambda>t. (test_name t, t)) (heap ?S)"
    using get_info_by_testcase_groups [of ?S sample_run "[]" "Console 1" "[]" "Console 2"
        True True "u ''utf-8''" "snd (exec_events sample_run (sample_result True True))"]
      l e
    by blast
  from l t g b show ?thesis by blast
qed

section \<open>Properties of the rendered test case\<close>

lemma new_record_empty_buffers:
  assumes "per_test_output s"
    and "getvalue (sys_stdout s) = Inr []" and "getvalue (sys_stderr s) = Inr []"
  shows "\<exists>s1. new_record test outc e s = Inr (length (heap s), s1)
           \<and> heap s1 = heap s @ [new_TestInfo test outc e (Some []) (Some [])]"
  using assms
  by (cases "sys_stdout s"; cases "sys_stderr s") (auto simp: new_record_def alloc_def)

lemma add_empty_buffers:
  assumes "is_add ev" and "per_test_output s"
    and "getvalue (sys_stdout s) = Inr []" and "getvalue (sys_stderr s) = Inr []"
    and "step ev s = (s', r)"
  shows "\<exists>info. heap s' = heap s @ [info] \<and> std_output info = Some [] \<and> err_output info = Some []"
proof (cases ev)
  case (AddSuccess test)
  from new_record_empty_buffers [OF assms(2,3,4), of test SUCCESS NoErr] assms(5) AddSuccess
  show ?thesis
    by (auto simp: addSuccess_def lift_result_def prepare_callback_def new_TestInfo_def)
next
  case (AddFailure test e)
  from new_record_empty_buffers [OF assms(2,3,4), of test ERROR "ExcInfo e"] assms(5) AddFailure
  show ?thesis
    by (auto simp: addFailure_def lift_result_def prepare_callback_def new_TestInfo_def)
next
  case (AddError test e)
  from new_record_empty_buffers [OF assms(2,3,4), of test ERROR "ExcInfo e"] assms(5) AddError
  show ?thesis
    by (auto simp: addError_def lift_result_def prepare_callback_def new_TestInfo_def)
next
  case (AddSkip test reason)
  from new_record_empty_buffers [OF assms(2,3,4), of test SKIP "Reason reason"] assms(5) AddSkip
  show ?thesis
    by (auto simp: addSkip_def lift_result_def prepare_callback_def new_TestInfo_def)
qed (use assms(1) in simp_all)

lemma new_record_resets:
  assumes "per_test_output s" and "new_record test outc e s = Inr (r, s1)"
  shows "per_test_output s1 \<and> getvalue (sys_stdout s1) = Inr []
         \<and> getvalue (sys_stderr s1) = Inr []"
  using assms
  by (cases "sys_stdout s"; cases "sys_stderr s") (auto simp: new_record_def alloc_def)

lemma add_resets_buffers:
  assumes "is_add ev" and "per_test_output s" and "step ev s = (s1, None)"
  shows "per_test_output s1 \<and> getvalue (sys_stdout s1) = Inr []
         \<and> getvalue (sys_stderr s1) = Inr []"
proof (cases ev)
  case (AddSuccess test)
  with assms(3) obtain r s0 where n: "new_record test SUCCESS NoErr s = Inr (r, s0)"
    and s1: "s1 = prepare_callback r The_successes (u ''OK'') (u ''.'') s0"
    by (auto simp: addSuccess_def lift_result_def split: sum.splits)
  from new_record_resets [OF assms(2) n] show ?thesis
    by (simp add: s1 prepare_callback_def)
next
  case (AddFailure test e)
  with assms(3) obtain r s0 where n: "new_record test ERROR (ExcInfo e) s = Inr (r, s0)"
    and s1: "s1 = prepare_callback r A_fresh_list (u ''FAIL'') (u ''F'')
                    (s0\<lparr>errors := errors s0 @ [(r, exc_info_to_string e)]\<rparr>)"
    by (auto simp: addFailure_def lift_result_def split: sum.splits)
  from new_record_resets [OF assms(2) n] show ?thesis
    by (simp add: s1 prepare_callback_def)
next
  case (AddError test e)
  with assms(3) obtain r s0 where n: "new_record test ERROR (ExcInfo e) s = Inr (r, s0)"
    and s1: "s1 = prepare_callback r A_fresh_list (u ''ERROR'') (u ''E'')
                    (s0\<lparr>errors := errors s0 @ [(r, exc_info_to_string e)]\<rparr>)"
    by (auto simp: addError_def lift_result_def split: sum.splits)
  from new_record_resets [OF assms(2) n] show ?thesis
    by (simp add: s1 prepare_callback_def)
next
  case (AddSkip test reason)
  with assms(3) obtain r s0 where n: "new_record test SKIP (Reason reason) s = Inr (r, s0)"
    and s1: "s1 = prepare_callback r A_fresh_list (u ''SKIP'') (u ''S'')
                    (s0\<lparr>skipped := skipped s0 @ [(r, reason)]\<rparr>)"
    by (auto simp: addSkip_def lift_result_def split: sum.splits)
  from new_record_resets [OF assms(2) n] show ?thesis
    by (simp add: s1 prepare_callback_def)
qed (use assms(1) in simp_all)

lemma quiet_step:
  assumes "quiet ev" and "step ev s = (s', r)"
  shows "sys_stdout s' = sys_stdout s \<and> sys_stderr s' = sys_stderr s
         \<and> per_test_output s' = per_test_output s"
proof (cases ev)
  case (StartTest test now)
  with assms(2) show ?thesis by (auto simp: startTest_def)
next
  case (StopTest test now)
  with assms(2) have "stopTest test now s = (s', r)" by simp
  from stopTest_frame [OF this] show ?thesis by simp
qed (use assms(1) in \<open>simp_all add: quiet_def\<close>)

lemma quiet_events:
  assumes "list_all quiet evs" and "exec_events evs s = (s', r)"
  shows "sys_stdout s' = sys_stdout s \<and> sys_stderr s' = sys_stderr s
         \<and> per_test_output s' = per_test_output s"
  using assms
proof (induction evs arbitrary: s)
  case Nil
  then show ?case by simp
next
  case (Cons ev evs)
  obtain s1 r1 where st: "step ev s = (s1, r1)" by (cases "step ev s")
  from Cons.prems(1) have q: "quiet ev" and qs: "list_all quiet evs" by simp_all
  note f = quiet_step [OF q st]
  show ?case
  proof (cases r1)
    case None
    with st Cons.prems(2) have "exec_events evs s1 = (s', r)" by simp
    from Cons.IH [OF qs this] f show ?thesis by simp
  next
    case (Some e)
    with st Cons.prems(2) have "s' = s1" by simp
    with f show ?thesis by simp
  qed
qed

lemma exec_events_append:
  "exec_events (xs @ ys) s =
     (case exec_events xs s of
        (s1, Some e) \<Rightarrow> (s1, Some e)
      | (s1, None) \<Rightarrow> exec_events ys s1)"
proof (induction xs arbitrary: s)
  case Nil
  show ?case by simp
next
  case (Cons x xs)
  obtain s1 r1 where st: "step x s = (s1, r1)" by (cases "step x s")
  show ?case
    using st Cons.IH [of s1] by (cases r1) simp_all
qed

lemma quiet_then_add:
  assumes "per_test_output s"
    and "getvalue (sys_stdout s) = Inr []" and "getvalue (sys_stderr s) = Inr []"
    and "list_all quiet mid" and "is_add ev"
    and "exec_events (mid @ [ev]) s = (s', None)"
  shows "\<exists>h info. heap s' = h @ [info] \<and> std_output info = Some [] \<and> err_output info = Some []"
proof -
  obtain s1 r1 where m: "exec_events mid s = (s1, r1)" by (cases "exec_events mid s")
  from assms(6) m have r1: "r1 = None" and st: "step ev s1 = (s', None)"
    by (cases r1; simp add: exec_events_append split: prod.splits option.splits)+
  from quiet_events [OF assms(4) m] assms(1,2,3) have
    "per_test_output s1" "getvalue (sys_stdout s1) = Inr []" "getvalue (sys_stderr s1) = Inr []"
    by simp_all
  from add_empty_buffers [OF assms(5) this st] show ?thesis by blast
qed

text \<open>
  Claim C10 as stated fails in its second half.  \<open>startTest\<close> does not reset the capture
  buffers, only the four outcome calls do.  In the sample run, which follows the
  lifecycle contract with per-test capture enabled, the fourth test writes nothing
  between its start and its stop; the third test wrote \<open>bye\<close> to standard error after
  its outcome call.  The record of the fourth test holds that text and is rendered with
  a \<open>system-err\<close> block.
\<close>

theorem silent_test_rendered_with_block:
  "lifecycle Idle sample_run
   \<and> drop 7 sample_run =
       [ StartTest sample_test 3000, AddSkip sample_test (u ''why''), WriteErr (u ''bye''),
         StopTest sample_test 3010,
         StartTest other_test 4000, AddError other_test sample_exc, StopTest other_test 4500 ]
   \<and> per_test_output (sample_result True True)
   \<and> test_id (heap (fst (exec_events sample_run (sample_result True True))) ! 3)
       = u ''__main__.CaseB.test_two''
   \<and> std_output (heap (fst (exec_events sample_run (sample_result True True))) ! 3) = Some []
   \<and> err_output (heap (fst (exec_events sample_run (sample_result True True))) ! 3)
       = Some (u ''bye'')
   \<and> report_captured ascii_codec (u ''system-err'')
        (err_output (heap (fst (exec_events sample_run (sample_result True True))) ! 3))
        (u ''utf-8'')
       = Inr [Element (u ''system-err'') [] [CDATASection (u ''bye'')]]"
proof -
  have a: "lifecycle Idle sample_run" by code_simp
  have b: "drop 7 sample_run =
       [ StartTest sample_test 3000, AddSkip sample_test (u ''why''), WriteErr (u ''bye''),
         StopTest sample_test 3010,
         StartTest other_test 4000, AddError other_test sample_exc, StopTest other_test 4500 ]"
    by (simp add: sample_run_def)
  have c: "per_test_output (sample_result True True)"
    by (simp add: sample_result_def XMLTestResult_init_def)
  have d: "test_id (heap (fst (exec_events sample_run (sample_result True True))) ! 3)
       = u ''__main__.CaseB.test_two''"
    by code_simp
  have e: "std_output (heap (fst (exec_events sample_run (sample_result True True))) ! 3) = Some []"
    by code_simp
  have f: "err_output (heap (fst (exec_events sample_run (sample_result True True))) ! 3)
       = Some (u ''bye'')"
    by code_simp
  have g: "report_captured ascii_codec (u ''system-err'') (Some (u ''bye'')) (u ''utf-8'')
       = Inr [Element (u ''system-err'') [] [CDATASection (u ''bye'')]]"
    by (simp add: report_captured_cases) (simp add: spec_illegal_char_def u_def)
  from a b c d e f g show ?thesis by simp
qed

text \<open>
  Claim C10, amended.  In a rendered \<open>testcase\<close> element a \<open>system-out\<close> child exists
  exactly when the record's captured standard output is present and not empty, and a
  \<open>system-err\<close> child exactly when its captured standard error is present and not
  empty.  The capture buffers are reset by the outcome calls only.  So, with per-test
  capture enabled: after an outcome call both buffers are empty; and a test whose outcome
  call comes when the buffers are empty and after nothing but starts and stops (nothing
  was written, and no channel was assigned, since the buffers were last empty: since the
  previous outcome call, or since the channels were patched) gets a record with two
  empty texts, which is rendered with neither block.
\<close>

theorem system_blocks_iff_captured:
  "(report_testcase decode suite t enc = Inr testcase \<longrightarrow>
      (children_named testcase (u ''system-out'') \<noteq> [] \<longleftrightarrow> (\<exists>text. std_output t = Some text \<and> text \<noteq> []))
    \<and> (children_named testcase (u ''system-err'') \<noteq> [] \<longleftrightarrow> (\<exists>text. err_output t = Some text \<and> text \<noteq> [])))
   \<and> (per_test_output s \<and> is_add ev0 \<and> step ev0 s = (s0, None)
      \<longrightarrow> per_test_output s0 \<and> getvalue (sys_stdout s0) = Inr []
          \<and> getvalue (sys_stderr s0) = Inr [])
   \<and> (per_test_output s0 \<and> getvalue (sys_stdout s0) = Inr [] \<and> getvalue (sys_stderr s0) = Inr []
        \<and> list_all quiet mid \<and> is_add ev
        \<and> exec_events (mid @ [ev]) s0 = (s', None)
      \<longrightarrow> (\<exists>h info. heap s' = h @ [info] \<and> std_output info = Some [] \<and> err_output info = Some []
             \<and> (\<forall>testcase'. report_testcase decode suite info enc = Inr testcase'
                   \<longrightarrow> children_named testcase' (u ''system-out'') = []
                       \<and> children_named testcase' (u ''system-err'') = [])))"
proof (intro conjI impI)
  assume a: "report_testcase decode suite t enc = Inr testcase"
  show "(children_named testcase (u ''system-out'') \<noteq> []) = (\<exists>text. std_output t = Some text \<and> text \<noteq> [])"
    using report_testcase_children [OF a] by (auto split: option.splits)
  show "(children_named testcase (u ''system-err'') \<noteq> []) = (\<exists>text. err_output t = Some text \<and> text \<noteq> [])"
    using report_testcase_children [OF a] by (auto split: option.splits)
next
  assume b: "per_test_output s \<and> is_add ev0 \<and> step ev0 s = (s0, None)"
  then have "per_test_output s0 \<and> getvalue (sys_stdout s0) = Inr []
         \<and> getvalue (sys_stderr s0) = Inr []"
    using add_resets_buffers [of ev0 s s0] by blast
  then show "per_test_output s0" "getvalue (sys_stdout s0) = Inr []"
    "getvalue (sys_stderr s0) = Inr []"
    by simp_all
next
  assume c: "per_test_output s0 \<and> getvalue (sys_stdout s0) = Inr [] \<and> getvalue (sys_stderr s0) = Inr []
        \<and> list_all quiet mid \<and> is_add ev
        \<and> exec_events (mid @ [ev]) s0 = (s', None)"
  then obtain h info where
    i: "heap s' = h @ [info]" "std_output info = Some []" "err_output info = Some []"
    using quiet_then_add [of s0 mid ev s'] by blast
  have "children_named testcase' (u ''system-out'') = []
        \<and> children_named testcase' (u ''system-err'') = []"
    if r: "report_testcase decode suite info enc = Inr testcase'" for testcase'
    using report_testcase_children [OF r] by (simp add: i)
  with i show "\<exists>h info. heap s' = h @ [info] \<and> std_output info = Some [] \<and> err_output info = Some []
             \<and> (\<forall>testcase'. report_testcase decode suite info enc = Inr testcase'
                   \<longrightarrow> children_named testcase' (u ''system-out'') = []
                       \<and> children_named testcase' (u ''system-err'') = [])"
    by blast
qed

theorem system_blocks_iff_captured_witness:
  "report_testcase ascii_codec (u ''pkg.mod.CaseA'')
       (new_TestInfo sample_test SUCCESS NoErr (Some (u ''hello'')) (Some [])) (u ''utf-8'')
     = Inr (Element (u ''testcase'')
              [(u ''classname'', u ''pkg.mod.CaseA''), (u ''name'', u ''test_one''), (u ''time'', u ''0.000'')]
              [Element (u ''system-out'') [] [CDATASection (u ''hello'')]])
   \<and> children_named (Element (u ''testcase'')
              [(u ''classname'', u ''pkg.mod.CaseA''), (u ''name'', u ''test_one''), (u ''time'', u ''0.000'')]
              [Element (u ''system-out'') [] [CDATASection (u ''hello'')]]) (u ''system-out'') \<noteq> []
   \<and> children_named (Element (u ''testcase'')
              [(u ''classname'', u ''pkg.mod.CaseA''), (u ''name'', u ''test_one''), (u ''time'', u ''0.000'')]
              [Element (u ''system-out'') [] [CDATASection (u ''hello'')]]) (u ''system-err'') = []
   \<and> per_test_output (fst (step (StartTest sample_test 1000) (sample_result True True)))
   \<and> is_add (AddSuccess sample_test)
   \<and> snd (step (AddSuccess sample_test) (fst (step (StartTest sample_test 1000) (sample_result True True)))) = None
   \<and> getvalue (sys_stdout (fst (step (AddSuccess sample_test) (fst (step (StartTest sample_test 1000) (sample_result True True)))))) = Inr []
   \<and> getvalue (sys_stderr (fst (step (AddSuccess sample_test) (fst (step (StartTest sample_test 1000) (sample_result True True)))))) = Inr []
   \<and> list_all quiet [StopTest sample_test 1250, StartTest other_test 2000]
   \<and> snd (exec_events [StopTest sample_test 1250, StartTest other_test 2000, AddSuccess other_test]
             (fst (step (AddSuccess sample_test) (fst (step (StartTest sample_test 1000) (sample_result True True)))))) = None
   \<and> std_output (last (heap (fst (exec_events
             [StopTest sample_test 1250, StartTest other_test 2000, AddSuccess other_test]
             (fst (step (AddSuccess sample_test) (fst (step (StartTest sample_test 1000) (sample_result True True))))))))) = Some []"
proof -
  let ?tc = "Element (u ''testcase'')
              [(u ''classname'', u ''pkg.mod.CaseA''), (u ''name'', u ''test_one''), (u ''time'', u ''0.000'')]
              [Element (u ''system-out'') [] [CDATASection (u ''hello'')]]"
  let ?sa = "fst (step (StartTest sample_test 1000) (sample_result True True))"
  let ?sb = "fst (step (AddSuccess sample_test) ?sa)"
  let ?evs = "[StopTest sample_test 1250, StartTest other_test 2000, AddSuccess other_test]"
  let ?sc = "fst (exec_events ?evs ?sb)"
  have r1: "report_testcase ascii_codec (u ''pkg.mod.CaseA'')
       (new_TestInfo sample_test SUCCESS NoErr (Some (u ''hello'')) (Some [])) (u ''utf-8'') = Inr ?tc"
    by (simp add: report_testcase_def new_TestInfo_def report_captured_cases sample_test_def
        test_method_name_sample format_3f_zero legal_hello)
  have p: "per_test_output ?sa"
    by (simp add: sample_result_def XMLTestResult_init_def startTest_def)
  have sn: "snd (step (AddSuccess sample_test) ?sa) = None" by code_simp
  then have st: "step (AddSuccess sample_test) ?sa = (?sb, None)"
    by (metis prod.collapse)
  have q: "list_all quiet [StopTest sample_test 1250, StartTest other_test 2000]"
    by (simp add: quiet_def)
  have n: "snd (exec_events ?evs ?sb) = None" by code_simp
  then have ex: "exec_events ([StopTest sample_test 1250, StartTest other_test 2000]
                    @ [AddSuccess other_test]) ?sb = (?sc, None)"
    by (metis append_Cons append_Nil prod.collapse)
  note t = system_blocks_iff_captured [of ascii_codec "u ''pkg.mod.CaseA''"
        "new_TestInfo sample_test SUCCESS NoErr (Some (u ''hello'')) (Some [])" "u ''utf-8''" ?tc
        ?sa "AddSuccess sample_test" ?sb
        "[StopTest sample_test 1250, StartTest other_test 2000]" "AddSuccess other_test" ?sc]
  from t r1 have c1: "children_named ?tc (u ''system-out'') \<noteq> []"
    by (simp add: new_TestInfo_def)
  from t r1 have c2: "children_named ?tc (u ''system-err'') = []"
    by (simp add: new_TestInfo_def)
  have ia: "is_add (AddSuccess sample_test)" "is_add (AddSuccess other_test)" by simp_all
  from t have "per_test_output ?sa \<and> is_add (AddSuccess sample_test)
        \<and> step (AddSuccess sample_test) ?sa = (?sb, None)
      \<longrightarrow> per_test_output ?sb \<and> getvalue (sys_stdout ?sb) = Inr []
          \<and> getvalue (sys_stderr ?sb) = Inr []"
    by (rule conjunct1 [OF conjunct2])
  with p ia(1) st have b: "per_test_output ?sb \<and> getvalue (sys_stdout ?sb) = Inr []
          \<and> getvalue (sys_stderr ?sb) = Inr []"
    by (rule_tac mp) (assumption, intro conjI)
  from t have "per_test_output ?sb \<and> getvalue (sys_stdout ?sb) = Inr []
        \<and> getvalue (sys_stderr ?sb) = Inr []
        \<and> list_all quiet [StopTest sample_test 1250, StartTest other_test 2000]
        \<and> is_add (AddSuccess other_test)
        \<and> exec_events ([StopTest sample_test 1250, StartTest other_test 2000]
                    @ [AddSuccess other_test]) ?sb = (?sc, None)
      \<longrightarrow> (\<exists>h info. heap ?sc = h @ [info] \<and> std_output info = Some [] \<and> err_output info = Some []
             \<and> (\<forall>testcase'. report_testcase ascii_codec (u ''pkg.mod.CaseA'') info (u ''utf-8'') = Inr testcase'
                   \<longrightarrow> children_named testcase' (u ''system-out'') = []
                       \<and> children_named testcase' (u ''system-err'') = []))"
    by (rule conjunct2 [OF conjunct2])
  moreover from b q ia(2) ex have "per_test_output ?sb \<and> getvalue (sys_stdout ?sb) = Inr []
        \<and> getvalue (sys_stderr ?sb) = Inr []
        \<and> list_all quiet [StopTest sample_test 1250, StartTest other_test 2000]
        \<and> is_add (AddSuccess other_test)
        \<and> exec_events ([StopTest sample_test 1250, StartTest other_test 2000]
                    @ [AddSuccess other_test]) ?sb = (?sc, None)"
    by (intro conjI) (erule conjunct1 conjunct1 [OF conjunct2] conjunct2 [OF conjunct2] | assumption)+
  ultimately obtain h info where
    "heap ?sc = h @ [info]" "std_output info = Some []"
    by blast
  then have l: "std_output (last (heap ?sc)) = Some []" by simp
  from r1 c1 c2 p ia(1) sn b q n l show ?thesis by blast
qed

section \<open>Report generation: directory mode\<close>

lemma add_xml_report_serialised:
  assumes "add_xml_report decode s suffix suite tests The_document = Inr ts"
  shows "toprettyxml decode (encoding s) (Document [ts]) = Inr (Document [ts])"
  using assms
  by (auto simp: add_xml_report_def document_with_def toprettyxml_def
      split: sum.splits if_splits)

lemma add_xml_report_element:
  assumes "add_xml_report decode s suffix suite tests node = Inr ts"
  shows "node_name ts = u ''testsuite''
         \<and> attributes ts = attributes (report_testsuite suite suffix tests)"
  using assms
  by (auto simp: add_xml_report_def report_testsuite_def split: sum.splits)

lemma suite_filename_spec: "suite_filename dir suffix suite = spec_suite_file dir suffix suite"
  by (simp add: suite_filename_def spec_suite_file_def os_sep_def u_def)

lemma spec_suite_file_inj: "inj (spec_suite_file dir suffix)"
  by (rule injI) (simp add: spec_suite_file_def)

lemma distinct_suites: "distinct (map fst (get_info_by_testcase s))"
  by (simp add: get_info_by_testcase_def group_tests_def group_tests_spec)

lemma write_suite_files_calls:
  assumes "\<forall>(suite, tests) \<in> set groups.
             (\<exists>ts. add_xml_report decode s suffix suite tests The_document = Inr ts)
             \<and> spec_suite_file dir suffix suite \<notin> io_fault w"
  shows "\<exists>tss. map (\<lambda>(suite, tests). add_xml_report decode s suffix suite tests The_document)
                  groups = map Inr tss
           \<and> write_suite_files decode s dir suffix groups w =
               (w\<lparr>calls := calls w @ concat (map (\<lambda>((suite, tests), ts).
                      [ Open_wb (spec_suite_file dir suffix suite),
                        File_write (spec_suite_file dir suffix suite) (Document [ts]) ])
                    (zip groups tss))\<rparr>, None)"
  using assms
proof (induction groups arbitrary: w)
  case Nil
  show ?case by simp
next
  case (Cons g groups)
  obtain suite tests where g: "g = (suite, tests)" by (cases g)
  from Cons.prems g obtain ts where
    ts: "add_xml_report decode s suffix suite tests The_document = Inr ts"
    and nf: "spec_suite_file dir suffix suite \<notin> io_fault w"
    by auto
  let ?f = "spec_suite_file dir suffix suite"
  let ?w1 = "w\<lparr>calls := calls w @ [Open_wb ?f, File_write ?f (Document [ts])]\<rparr>"
  have rest: "\<forall>(suite, tests) \<in> set groups.
             (\<exists>ts. add_xml_report decode s suffix suite tests The_document = Inr ts)
             \<and> spec_suite_file dir suffix suite \<notin> io_fault ?w1"
    using Cons.prems by auto
  from Cons.IH [OF rest] obtain tss where
    m: "map (\<lambda>(suite, tests). add_xml_report decode s suffix suite tests The_document)
                  groups = map Inr tss"
    and r: "write_suite_files decode s dir suffix groups ?w1 =
               (?w1\<lparr>calls := calls ?w1 @ concat (map (\<lambda>((suite, tests), ts).
                      [ Open_wb (spec_suite_file dir suffix suite),
                        File_write (spec_suite_file dir suffix suite) (Document [ts]) ])
                    (zip groups tss))\<rparr>, None)"
    by blast
  have step: "write_suite_files decode s dir suffix (g # groups) w
                = write_suite_files decode s dir suffix groups ?w1"
    using ts nf add_xml_report_serialised [OF ts]
    by (simp add: g suite_filename_spec open_wb_def file_write_def)
  have "map (\<lambda>(suite, tests). add_xml_report decode s suffix suite tests The_document)
          (g # groups) = map Inr (ts # tss)"
    using m ts by (simp add: g)
  moreover have "write_suite_files decode s dir suffix (g # groups) w =
               (w\<lparr>calls := calls w @ concat (map (\<lambda>((suite, tests), ts).
                      [ Open_wb (spec_suite_file dir suffix suite),
                        File_write (spec_suite_file dir suffix suite) (Document [ts]) ])
                    (zip (g # groups) (ts # tss)))\<rparr>, None)"
    unfolding step r by (simp add: g)
  ultimately show ?case by blast
qed

text \<open>
  Claim C7 as stated fails: rendering a suite can raise, and then the suite gets no file.
  A test ends with an error whose formatted trace contains \<open>]]>\<close>.  The trace goes into a
  CDATA section, and serialising the document raises \<open>ValueError\<close>.  The run follows the
  lifecycle contract and has one suite; the directory is created and no file is
  written.
\<close>

theorem no_file_for_unserialisable_suite:
  "output_target (sample_runner (Path (u ''out'')) True) = Path (u ''out'')
   \<and> \<not> endswith (lower (u ''out'')) (u ''.xml'')
   \<and> lifecycle Idle cdata_events
   \<and> map fst (get_info_by_testcase (fst (exec_events cdata_events
         (make_result (sample_runner (Path (u ''out'')) True)
            (DelegateIO [] (Console 1)) (DelegateIO [] (Console 2))))))
       = [u ''pkg.mod.CaseA'']
   \<and> snd (run ascii_codec (\<lambda>p. p) (sample_runner (Path (u ''out'')) True) cdata_events None
            (Console 1, Console 2) (sample_world {}))
       = ((sample_world {})\<lparr>calls := [Makedirs (u ''out'')]\<rparr>, Some ValueError)"
proof -
  have a: "output_target (sample_runner (Path (u ''out'')) True) = Path (u ''out'')"
    by (simp add: sample_runner_def XMLTestRunner_init_def)
  have b: "\<not> endswith (lower (u ''out'')) (u ''.xml'')"
    by (simp add: endswith_def lower_def u_def)
  have c: "lifecycle Idle cdata_events" by code_simp
  have d: "map fst (get_info_by_testcase (fst (exec_events cdata_events
         (make_result (sample_runner (Path (u ''out'')) True)
            (DelegateIO [] (Console 1)) (DelegateIO [] (Console 2))))))
       = [u ''pkg.mod.CaseA'']"
    by code_simp
  have e: "snd (run ascii_codec (\<lambda>p. p) (sample_runner (Path (u ''out'')) True) cdata_events None
            (Console 1, Console 2) (sample_world {}))
       = ((sample_world {})\<lparr>calls := [Makedirs (u ''out'')]\<rparr>, Some ValueError)"
    by (simp add: run_def run_body_def patch_standard_output_def restore_standard_output_def
      cdata_events_def cdata_exc_def sample_test_def
      startTest_def stopTest_def run_callback_def test_finished_def prepare_callback_def
      addError_def new_record_def alloc_def lift_result_def new_TestInfo_def testcase_name_def
      generate_reports_def get_info_by_testcase_def group_tests_def testcase_list_def
      group_step_def add_xml_report_def report_testcase_def report_diagnostic_def
      report_captured_def report_testsuite_def document_with_def toprettyxml_def
      xml_safe_unicode_Str spec_illegal_char_def ascii_codec_def
      make_result_def XMLTestResult_init_def sample_runner_def XMLTestRunner_init_def
      sample_world_def os_makedirs_def open_wb_def endswith_def lower_def lower_char_def
      u_def Let_def)
  from a b c d e show ?thesis by simp
qed

text \<open>
  Claim C7, amended.  The output target is a path that does not end in \<open>.xml\<close> (in any
  letter case: the source lower-cases the target before it looks at its end).  When
  rendering raises for no suite, and the system refuses neither the creation of the
  directory nor the opening of a suite's file: report generation creates the directory
  if it is absent, then for each suite, in the order of the grouping, opens the file
  \<open>TEST-<suite>-<suffix>.xml\<close> inside that directory (\<open>TEST-<suite>.xml\<close> when the suffix
  is empty) and writes to it the standalone document whose one element is the suite's
  \<open>testsuite\<close> element; it does nothing else and raises nothing.  The files of two suites
  are different files.
\<close>

theorem directory_mode_one_file_per_suite:
  assumes "output_target test_runner = Path dir"
    and "\<not> endswith (lower dir) (u ''.xml'')"
    and "path_exists w dir \<or> dir \<notin> io_fault w"
    and "\<forall>(suite, tests) \<in> set (get_info_by_testcase s).
           (\<exists>ts. add_xml_report decode s (outsuffix test_runner) suite tests The_document = Inr ts)
           \<and> spec_suite_file dir (outsuffix test_runner) suite \<notin> io_fault w"
  shows "\<exists>tss. map (\<lambda>(suite, tests).
                  add_xml_report decode s (outsuffix test_runner) suite tests The_document)
               (get_info_by_testcase s) = map Inr tss
           \<and> list_all (\<lambda>ts. node_name ts = u ''testsuite'') tss
           \<and> generate_reports decode abspath s test_runner w =
               (w\<lparr>calls := calls w @ (if path_exists w dir then [] else [Makedirs dir])
                    @ concat (map (\<lambda>((suite, tests), ts).
                        [ Open_wb (spec_suite_file dir (outsuffix test_runner) suite),
                          File_write (spec_suite_file dir (outsuffix test_runner) suite)
                            (Document [ts]) ])
                      (zip (get_info_by_testcase s) tss))\<rparr>, None)
           \<and> distinct (map (\<lambda>(suite, tests). spec_suite_file dir (outsuffix test_runner) suite)
                 (get_info_by_testcase s))"
proof -
  let ?suffix = "outsuffix test_runner"
  let ?groups = "get_info_by_testcase s"
  let ?w1 = "w\<lparr>calls := calls w @ (if path_exists w dir then [] else [Makedirs dir])\<rparr>"
  have mk: "(if \<not> path_exists w dir then os_makedirs dir w else Inr w) = Inr ?w1"
    using assms(3) by (auto simp: os_makedirs_def)
  have ok: "\<forall>(suite, tests) \<in> set ?groups.
             (\<exists>ts. add_xml_report decode s ?suffix suite tests The_document = Inr ts)
             \<and> spec_suite_file dir ?suffix suite \<notin> io_fault ?w1"
    using assms(4) by auto
  from write_suite_files_calls [OF ok] obtain tss where
    m: "map (\<lambda>(suite, tests). add_xml_report decode s ?suffix suite tests The_document)
          ?groups = map Inr tss"
    and r: "write_suite_files decode s dir ?suffix ?groups ?w1 =
               (?w1\<lparr>calls := calls ?w1 @ concat (map (\<lambda>((suite, tests), ts).
                      [ Open_wb (spec_suite_file dir ?suffix suite),
                        File_write (spec_suite_file dir ?suffix suite) (Document [ts]) ])
                    (zip ?groups tss))\<rparr>, None)"
    by blast
  have names: "list_all (\<lambda>ts. node_name ts = u ''testsuite'') tss"
    unfolding list_all_iff
  proof
    fix ts assume "ts \<in> set tss"
    then have "Inr ts \<in> set (map (\<lambda>(suite, tests).
                 add_xml_report decode s ?suffix suite tests The_document) ?groups)"
      unfolding m by simp
    then obtain suite tests where
      "add_xml_report decode s ?suffix suite tests The_document = Inr ts"
      by auto
    from add_xml_report_element [OF this] show "node_name ts = u ''testsuite''" by simp
  qed
  have gen: "generate_reports decode abspath s test_runner w =
               write_suite_files decode s dir ?suffix ?groups ?w1"
    using assms(1,2) mk by (simp add: generate_reports_def Let_def)
  have dist: "distinct (map (\<lambda>(suite, tests). spec_suite_file dir ?suffix suite) ?groups)"
  proof -
    have eq: "(\<lambda>(suite, tests). spec_suite_file dir ?suffix suite)
                = spec_suite_file dir ?suffix \<circ> fst"
      by (auto simp: fun_eq_iff)
    have "distinct (map (spec_suite_file dir ?suffix) (map fst ?groups))"
      using distinct_suites [of s] inj_on_subset [OF spec_suite_file_inj subset_UNIV]
      by (subst distinct_map) blast
    then show ?thesis
      unfolding eq by (simp only: map_map)
  qed
  from m names gen r dist show ?thesis by auto
qed

theorem directory_mode_one_file_per_suite_witness:
  "output_target (sample_runner (Path (u ''out'')) True) = Path (u ''out'')
   \<and> \<not> endswith (lower (u ''out'')) (u ''.xml'')
   \<and> \<not> path_exists (sample_world {}) (u ''out'')
   \<and> u ''out'' \<notin> io_fault (sample_world {})
   \<and> map fst (get_info_by_testcase (fst (exec_events sample_events
         (make_result (sample_runner (Path (u ''out'')) True)
            (DelegateIO [] (Console 1)) (DelegateIO [] (Console 2))))))
       = [u ''pkg.mod.CaseA'']
   \<and> generate_reports ascii_codec (\<lambda>p. p)
        (fst (exec_events sample_events
           (make_result (sample_runner (Path (u ''out'')) True)
              (DelegateIO [] (Console 1)) (DelegateIO [] (Console 2)))))
        (sample_runner (Path (u ''out'')) True) (sample_world {})
       = ((sample_world {})\<lparr>calls :=
            [ Makedirs (u ''out''),
              Open_wb (u ''out/TEST-pkg.mod.CaseA-X.xml''),
              File_write (u ''out/TEST-pkg.mod.CaseA-X.xml'')
                (Document
                  [Element (u ''testsuite'')
                     [ (u ''name'', u ''pkg.mod.CaseA-X''), (u ''tests'', u ''1''),
                       (u ''time'', u ''0.500''), (u ''failures'', u ''0''),
                       (u ''errors'', u ''0'') ]
                     [Element (u ''testcase'')
                        [ (u ''classname'', u ''pkg.mod.CaseA''), (u ''name'', u ''test_one''),
                          (u ''time'', u ''0.500'') ]
                        [Element (u ''system-out'') [] [CDATASection (u ''hello'')]]]]) ]\<rparr>,
          None)"
proof -
  let ?R = "sample_runner (Path (u ''out'')) True"
  let ?w = "sample_world {}"
  define S where "S = fst (exec_events sample_events
              (make_result ?R (DelegateIO [] (Console 1)) (DelegateIO [] (Console 2))))"
  let ?rec = "\<lparr> outcome = SUCCESS, test_index = 0, elapsed_time = 500, err = NoErr,
                std_output = Some (u ''hello''), err_output = Some [],
                test_description = u ''test_one (pkg.mod.CaseA)'',
                test_exception_info = [],
                test_name = u ''pkg.mod.CaseA'',
                test_id = u ''pkg.mod.CaseA.test_one'' \<rparr>"
  let ?ts = "Element (u ''testsuite'')
               [ (u ''name'', u ''pkg.mod.CaseA-X''), (u ''tests'', u ''1''),
                 (u ''time'', u ''0.500''), (u ''failures'', u ''0''),
                 (u ''errors'', u ''0'') ]
               [Element (u ''testcase'')
                  [ (u ''classname'', u ''pkg.mod.CaseA''), (u ''name'', u ''test_one''),
                    (u ''time'', u ''0.500'') ]
                  [Element (u ''system-out'') [] [CDATASection (u ''hello'')]]]"
  have a: "output_target ?R = Path (u ''out'')"
    by (simp add: sample_runner_def XMLTestRunner_init_def)
  have b: "\<not> endswith (lower (u ''out'')) (u ''.xml'')"
    by (simp add: endswith_def lower_def u_def)
  have c: "\<not> path_exists ?w (u ''out'')" and d: "u ''out'' \<notin> io_fault ?w"
    by (simp_all add: sample_world_def)
  have suf: "outsuffix ?R = u ''X''"
    by (simp add: sample_runner_def XMLTestRunner_init_def u_def)
  have enc: "encoding S = u ''utf-8''" and pto: "per_test_output S"
    unfolding S_def by code_simp+
  have g: "get_info_by_testcase S = [(u ''pkg.mod.CaseA'', [?rec])]"
    unfolding S_def by code_simp
  have f3: "format_3f 500 = u ''0.500''"
    by (simp add: format_3f_def u_def str_nat.simps)
  have ax: "add_xml_report ascii_codec S (u ''X'') (u ''pkg.mod.CaseA'') [?rec] The_document
              = Inr ?ts"
    by (simp add: add_xml_report_def enc pto report_testcase_def report_captured_cases
        report_testsuite_def document_with_def toprettyxml_def ascii_codec_def
        test_method_name_sample f3 legal_hello str_nat.simps)
       (simp add: u_def)
  have h: "\<forall>(suite, tests) \<in> set (get_info_by_testcase S).
           (\<exists>ts. add_xml_report ascii_codec S (outsuffix ?R) suite tests The_document = Inr ts)
           \<and> spec_suite_file (u ''out'') (outsuffix ?R) suite \<notin> io_fault ?w"
    unfolding g suf using ax by (simp add: sample_world_def)
  from directory_mode_one_file_per_suite [of ?R "u ''out''" ?w S ascii_codec "\<lambda>p. p", OF a b _ h] d
  obtain tss where
    m: "map (\<lambda>(suite, tests).
                  add_xml_report ascii_codec S (outsuffix ?R) suite tests The_document)
               (get_info_by_testcase S) = map Inr tss"
    and gen: "generate_reports ascii_codec (\<lambda>p. p) S ?R ?w =
               (?w\<lparr>calls := calls ?w @ (if path_exists ?w (u ''out'') then [] else [Makedirs (u ''out'')])
                    @ concat (map (\<lambda>((suite, tests), ts).
                        [ Open_wb (spec_suite_file (u ''out'') (outsuffix ?R) suite),
                          File_write (spec_suite_file (u ''out'') (outsuffix ?R) suite)
                            (Document [ts]) ])
                      (zip (get_info_by_testcase S) tss))\<rparr>, None)"
    by blast
  from m have tss: "tss = [?ts]"
    unfolding g suf by (simp add: ax) blast
  have fn: "spec_suite_file (u ''out'') (u ''X'') (u ''pkg.mod.CaseA'')
              = u ''out/TEST-pkg.mod.CaseA-X.xml''"
    by (simp add: spec_suite_file_def u_def)
  have e: "generate_reports ascii_codec (\<lambda>p. p) S ?R ?w
       = (?w\<lparr>calls :=
            [ Makedirs (u ''out''),
              Open_wb (u ''out/TEST-pkg.mod.CaseA-X.xml''),
              File_write (u ''out/TEST-pkg.mod.CaseA-X.xml'') (Document [?ts]) ]\<rparr>,
          None)"
    unfolding gen tss g suf by (simp add: fn sample_world_def)
  have k: "map fst (get_info_by_testcase S) = [u ''pkg.mod.CaseA'']"
    unfolding g by simp
  from a b c d k e show ?thesis unfolding S_def by blast
qed

section \<open>Report generation: single-file mode\<close>

lemma splitext_loop_iff:
  "splitext_loop p i d = (\<exists>k. i \<le> k \<and> k < d \<and> take 1 (drop k p) \<noteq> [46])"
proof (induction p i d rule: splitext_loop.induct)
  case (1 p i d)
  show ?case
  proof (cases "i < d")
    case False
    then show ?thesis by (subst splitext_loop.simps) auto
  next
    case True
    show ?thesis
    proof (cases "take 1 (drop i p) \<noteq> [46]")
      case True
      with \<open>i < d\<close> show ?thesis by (subst splitext_loop.simps) auto
    next
      case False
      with \<open>i < d\<close> have "splitext_loop p i d = splitext_loop p (Suc i) d"
        by (subst splitext_loop.simps) simp
      also have "\<dots> = (\<exists>k. Suc i \<le> k \<and> k < d \<and> take 1 (drop k p) \<noteq> [46])"
        using 1 \<open>i < d\<close> False by simp
      also have "\<dots> = (\<exists>k. i \<le> k \<and> k < d \<and> take 1 (drop k p) \<noteq> [46])"
        using False by (metis Suc_leD Suc_leI le_neq_implies_less)
      finally show ?thesis .
    qed
  qed
qed

lemma rfind_last_dot:
  assumes "46 \<notin> set e"
  shows "rfind (base @ 46 # e) 46 = int (length base)"
proof -
  have "\<And>x. x \<in> set (rev e) \<Longrightarrow> x \<noteq> 46"
    using assms by auto
  then have "takeWhile (\<lambda>x. x \<noteq> 46) (rev e @ 46 # rev base)
               = rev e @ takeWhile (\<lambda>x. x \<noteq> 46) (46 # rev base)"
    by (rule takeWhile_append2)
  then have "takeWhile (\<lambda>x. x \<noteq> 46) (rev e @ 46 # rev base) = rev e"
    by simp
  then show ?thesis by (simp add: rfind_def)
qed

lemma rfind_sep_append:
  assumes "47 \<notin> set ext"
  shows "rfind (base @ ext) os_sep + 1
           = int (length base) - int (length (takeWhile (\<lambda>x. x \<noteq> 47) (rev base)))"
proof (cases "47 \<in> set base")
  case True
  have "\<And>x. x \<in> set (rev ext) \<Longrightarrow> x \<noteq> 47"
    using assms by auto
  then have "takeWhile (\<lambda>x. x \<noteq> 47) (rev ext @ rev base)
          = rev ext @ takeWhile (\<lambda>x. x \<noteq> 47) (rev base)"
    by (rule takeWhile_append2)
  with True show ?thesis by (simp add: rfind_def os_sep_def)
next
  case False
  then have "takeWhile (\<lambda>x. x \<noteq> 47) (rev base) = rev base"
    by (auto simp: takeWhile_eq_all_conv)
  then have "length (takeWhile (\<lambda>x. x \<noteq> 47) (rev base)) = length base"
    by (simp only: length_rev)
  then show ?thesis
    using False assms by (simp add: rfind_def os_sep_def)
qed

lemma final_component_drop:
  "final_component base
     = drop (length base - length (takeWhile (\<lambda>x. x \<noteq> 47) (rev base))) base"
proof -
  let ?n = "length (takeWhile (\<lambda>x. x \<noteq> 47) (rev base))"
  have "takeWhile (\<lambda>x. x \<noteq> 47) (rev base) = take ?n (rev base)"
    by (rule takeWhile_eq_take)
  then have "final_component base = rev (take ?n (rev base))"
    unfolding final_component_def by (rule arg_cong)
  also have "\<dots> = drop (length base - ?n) base"
    by (simp add: rev_take)
  finally show ?thesis .
qed

lemma splitext_of_extension:
  assumes "46 \<notin> set e" and "47 \<notin> set e"
    and "list_ex (\<lambda>c. c \<noteq> 46) (final_component base)"
  shows "splitext (base @ 46 # e) = (base, 46 # e)"
proof -
  let ?p = "base @ 46 # e"
  let ?n = "length (takeWhile (\<lambda>x. x \<noteq> 47) (rev base))"
  have n: "?n \<le> length base"
    using length_takeWhile_le [of "\<lambda>x. x \<noteq> 47" "rev base"] by simp
  have dot: "rfind ?p 46 = int (length base)"
    by (rule rfind_last_dot [OF assms(1)])
  have sep1: "rfind ?p os_sep + 1 = int (length base) - int ?n"
    using rfind_sep_append [of "46 # e" base] assms(2) by simp
  then have sep: "nat (rfind ?p os_sep + 1) = length base - ?n"
    using n by simp
  from sep1 have gt: "rfind ?p 46 > rfind ?p os_sep"
    unfolding dot using n by linarith
  from assms(3) obtain c where c: "c \<in> set (final_component base)" "c \<noteq> 46"
    by (auto simp: list_ex_iff)
  then obtain j where j: "j < length (final_component base)" "final_component base ! j = c"
    by (auto simp: in_set_conv_nth)
  let ?k = "length base - ?n + j"
  from j(1) have kb: "?k < length base"
    by (simp add: final_component_drop)
  from j have bk: "base ! ?k = c"
    by (simp add: final_component_drop)
  have "drop ?k ?p = drop ?k base @ 46 # e"
    using kb by simp
  also have "drop ?k base = base ! ?k # drop (Suc ?k) base"
    using kb by (rule Cons_nth_drop_Suc [symmetric])
  finally have "take 1 (drop ?k ?p) = [c]"
    by (simp add: bk)
  with c(2) kb n have "\<exists>k. length base - ?n \<le> k \<and> k < length base \<and> take 1 (drop k ?p) \<noteq> [46]"
    by (intro exI [of _ ?k]) simp
  then have loop: "splitext_loop ?p (nat (rfind ?p os_sep + 1)) (nat (rfind ?p 46))"
    unfolding sep dot by (simp add: splitext_loop_iff)
  show ?thesis
    using gt loop by (simp add: splitext_def Let_def dot)
qed

lemma extension_chars:
  assumes "lower ext = u ''.xml''"
  shows "\<exists>e. ext = 46 # e \<and> 46 \<notin> set e \<and> 47 \<notin> set e"
proof -
  from assms obtain a b c d where "ext = [a, b, c, d]"
    and "lower_char a = 46" "lower_char b = 120" "lower_char c = 109" "lower_char d = 108"
    by (auto simp: lower_def u_def map_eq_Cons_conv)
  then show ?thesis
    by (auto simp: lower_char_def split: if_splits)
qed

lemma single_filename_spec:
  assumes "lower ext = u ''.xml''"
    and "list_ex (\<lambda>c. c \<noteq> 46) (final_component base)"
  shows "single_filename (base @ ext) suffix = spec_single_file base ext suffix"
proof -
  from extension_chars [OF assms(1)] obtain e where
    e: "ext = 46 # e" "46 \<notin> set e" "47 \<notin> set e" by blast
  from splitext_of_extension [OF e(2,3) assms(2)] show ?thesis
    by (simp add: e(1) single_filename_def spec_single_file_def Let_def)
qed

lemma add_xml_report_in_testsuites:
  assumes "add_xml_report decode s suffix suite tests (The_testsuites previous) = Inr ts"
  shows "toprettyxml decode (encoding s)
           (Document [Element (u ''testsuites'') [] (previous @ [ts])])
         = Inr (Document [Element (u ''testsuites'') [] (previous @ [ts])])"
  using assms
  by (auto simp: add_xml_report_def document_with_def toprettyxml_def
      split: sum.splits if_splits)

lemma add_xml_reports_serialised:
  assumes "add_xml_reports decode s suffix groups previous = Inr tss" and "groups \<noteq> []"
  shows "toprettyxml decode (encoding s) (Document [Element (u ''testsuites'') [] tss])
         = Inr (Document [Element (u ''testsuites'') [] tss])"
  using assms
proof (induction groups arbitrary: previous)
  case Nil
  then show ?case by simp
next
  case (Cons g groups)
  obtain suite tests where g: "g = (suite, tests)" by (cases g)
  from Cons.prems(1) g obtain ts where
    ts: "add_xml_report decode s suffix suite tests (The_testsuites previous) = Inr ts"
    and rest: "add_xml_reports decode s suffix groups (previous @ [ts]) = Inr tss"
    by (auto split: sum.splits)
  show ?case
  proof (cases "groups = []")
    case True
    with rest have "tss = previous @ [ts]" by simp
    with add_xml_report_in_testsuites [OF ts] show ?thesis by simp
  next
    case False
    from Cons.IH [OF rest False] show ?thesis .
  qed
qed

lemma add_xml_reports_elements:
  assumes "add_xml_reports decode s suffix groups previous = Inr tss"
  shows "\<exists>new. tss = previous @ new
           \<and> map (\<lambda>ts. (node_name ts, attributes ts)) new
               = map (\<lambda>(suite, tests).
                       (u ''testsuite'', attributes (report_testsuite suite suffix tests)))
                   groups"
  using assms
proof (induction groups arbitrary: previous)
  case Nil
  then show ?case by simp
next
  case (Cons g groups)
  obtain suite tests where g: "g = (suite, tests)" by (cases g)
  from Cons.prems(1) g obtain ts where
    ts: "add_xml_report decode s suffix suite tests (The_testsuites previous) = Inr ts"
    and rest: "add_xml_reports decode s suffix groups (previous @ [ts]) = Inr tss"
    by (auto split: sum.splits)
  from Cons.IH [OF rest] obtain new where
    new: "tss = (previous @ [ts]) @ new"
      "map (\<lambda>ts. (node_name ts, attributes ts)) new
         = map (\<lambda>(suite, tests).
                 (u ''testsuite'', attributes (report_testsuite suite suffix tests))) groups"
    by blast
  from add_xml_report_element [OF ts] new show ?case
    by (intro exI [of _ "ts # new"]) (simp add: g)
qed

text \<open>
  Claim C8 as stated fails, in two ways.  First, the combined file is opened before the
  suites are rendered, and rendering can raise: for the test whose trace contains
  \<open>]]>\<close> the parent directory is created and the file is opened, so it exists and is
  empty, but no document is written to it.  Second, the name: for a target whose last
  component is the extension alone, \<open>/w/.xml\<close>, \<open>os.path.splitext\<close> finds no
  extension, and the file is \<open>/w/.xml-X\<close>, which does not end in \<open>.xml\<close>.
\<close>

theorem combined_file_not_written:
  "output_target (sample_runner (Path (u ''out/r.xml'')) True) = Path (u ''out/r.xml'')
   \<and> endswith (lower (u ''out/r.xml'')) (u ''.xml'')
   \<and> lifecycle Idle cdata_events
   \<and> snd (run ascii_codec (\<lambda>p. u ''/w/'' @ p) (sample_runner (Path (u ''out/r.xml'')) True)
            cdata_events None (Console 1, Console 2) (sample_world {}))
       = ((sample_world {})\<lparr>calls := [Makedirs (u ''/w/out''), Open_wb (u ''/w/out/r-X.xml'')]\<rparr>,
          Some ValueError)
   \<and> endswith (lower (u ''/w/.xml'')) (u ''.xml'')
   \<and> single_filename (u ''/w/.xml'') (u ''X'') = u ''/w/.xml-X''"
proof -
  have a: "output_target (sample_runner (Path (u ''out/r.xml'')) True) = Path (u ''out/r.xml'')"
    by (simp add: sample_runner_def XMLTestRunner_init_def)
  have b: "endswith (lower (u ''out/r.xml'')) (u ''.xml'')"
    by (simp add: endswith_def lower_def lower_char_def u_def)
  have c: "lifecycle Idle cdata_events" by code_simp
  have sp: "path_split (u ''/w/out/r.xml'') = (u ''/w/out'', u ''r.xml'')"
    by (simp add: path_split_def rfind_def os_sep_def u_def Let_def)
  have sf: "single_filename (u ''/w/out/r.xml'') (u ''X'') = u ''/w/out/r-X.xml''"
    by (simp add: single_filename_def splitext_def rfind_def os_sep_def u_def Let_def
        splitext_loop.simps)
  have ab: "u ''/w/'' @ u ''out/r.xml'' = u ''/w/out/r.xml''"
    by (simp add: u_def)
  have d: "snd (run ascii_codec (\<lambda>p. u ''/w/'' @ p) (sample_runner (Path (u ''out/r.xml'')) True)
            cdata_events None (Console 1, Console 2) (sample_world {}))
       = ((sample_world {})\<lparr>calls := [Makedirs (u ''/w/out''), Open_wb (u ''/w/out/r-X.xml'')]\<rparr>,
          Some ValueError)"
    by (simp add: run_def run_body_def patch_standard_output_def restore_standard_output_def
      cdata_events_def cdata_exc_def sample_test_def
      startTest_def stopTest_def run_callback_def test_finished_def prepare_callback_def
      addError_def new_record_def alloc_def lift_result_def new_TestInfo_def testcase_name_def
      generate_reports_def get_info_by_testcase_def group_tests_def testcase_list_def
      group_step_def add_xml_report_def report_testcase_def report_diagnostic_def
      report_captured_def report_testsuite_def document_with_def toprettyxml_def
      xml_safe_unicode_Str spec_illegal_char_def ascii_codec_def
      make_result_def XMLTestResult_init_def sample_runner_def XMLTestRunner_init_def
      sample_world_def os_makedirs_def open_wb_def b ab sp sf Let_def)
     (simp add: u_def)
  have e: "endswith (lower (u ''/w/.xml'')) (u ''.xml'')"
    by (simp add: endswith_def lower_def lower_char_def u_def)
  have f: "single_filename (u ''/w/.xml'') (u ''X'') = u ''/w/.xml-X''"
    by (simp add: single_filename_def splitext_def rfind_def os_sep_def u_def Let_def
        splitext_loop.simps)
  from a b c d e f show ?thesis by blast
qed

text \<open>
  Claim C8, amended.  The output target ends in \<open>.xml\<close> (in any letter case), and so does
  its absolute path, which is \<open>base\<close> followed by that extension; the last component of
  \<open>base\<close> has a character other than the point.  When rendering raises for no suite
  (and, if there is no suite at all, the encoding is known), and the system refuses
  neither the creation of the parent directory nor the opening of the file: report
  generation creates the parent directory of the absolute path if it is absent, opens the
  one file \<open><base>-<suffix>.xml\<close> (the target itself when the suffix is empty) and writes
  to it one document, whose root element is \<open>testsuites\<close>; the children of the root are
  one \<open>testsuite\<close> element per suite, with the attributes of the suite, in the order of
  the grouping, which is the order in which the suites are first seen in the run.  It
  does nothing else and raises nothing.
\<close>

theorem single_file_mode_one_combined_file:
  assumes "output_target test_runner = Path out"
    and "endswith (lower out) (u ''.xml'')"
    and "abspath out = base @ ext" and "lower ext = u ''.xml''"
    and "list_ex (\<lambda>c. c \<noteq> 46) (final_component base)"
    and "path_exists w (fst (path_split (abspath out)))
         \<or> fst (path_split (abspath out)) \<notin> io_fault w"
    and "spec_single_file base ext (outsuffix test_runner) \<notin> io_fault w"
    and "add_xml_reports decode s (outsuffix test_runner) (get_info_by_testcase s) [] = Inr tss"
    and "get_info_by_testcase s \<noteq> [] \<or> decode (encoding s) [] \<noteq> Inl LookupError"
  shows "generate_reports decode abspath s test_runner w =
           (w\<lparr>calls := calls w
                @ (if path_exists w (fst (path_split (abspath out))) then []
                   else [Makedirs (fst (path_split (abspath out)))])
                @ [ Open_wb (spec_single_file base ext (outsuffix test_runner)),
                    File_write (spec_single_file base ext (outsuffix test_runner))
                      (Document [Element (u ''testsuites'') [] tss]) ]\<rparr>, None)
         \<and> map (\<lambda>ts. (node_name ts, attributes ts)) tss
             = map (\<lambda>(suite, tests).
                     (u ''testsuite'',
                      attributes (report_testsuite suite (outsuffix test_runner) tests)))
                 (get_info_by_testcase s)
         \<and> map fst (get_info_by_testcase s)
             = first_seen (map fst (by_index (testcase_list s)))"
proof -
  let ?suffix = "outsuffix test_runner"
  let ?dir = "fst (path_split (abspath out))"
  let ?fn = "spec_single_file base ext ?suffix"
  let ?w1 = "w\<lparr>calls := calls w @ (if path_exists w ?dir then [] else [Makedirs ?dir])\<rparr>"
  let ?w2 = "?w1\<lparr>calls := calls ?w1 @ [Open_wb ?fn]\<rparr>"
  let ?doc = "Document [Element (u ''testsuites'') [] tss]"
  have fn: "single_filename (abspath out) ?suffix = ?fn"
    unfolding assms(3) by (rule single_filename_spec [OF assms(4,5)])
  have mk: "(if \<not> path_exists w ?dir then os_makedirs ?dir w else Inr w) = Inr ?w1"
    using assms(6) by (auto simp: os_makedirs_def)
  have op: "open_wb ?fn ?w1 = Inr ?w2"
    using assms(7) by (simp add: open_wb_def)
  have ser: "toprettyxml decode (encoding s) ?doc = Inr ?doc"
  proof (cases "get_info_by_testcase s = []")
    case True
    with assms(8) have "tss = []" by simp
    with True assms(9) show ?thesis by (simp add: toprettyxml_def)
  next
    case False
    from add_xml_reports_serialised [OF assms(8) False] show ?thesis .
  qed
  have gen: "generate_reports decode abspath s test_runner w = (file_write ?fn ?doc ?w2, None)"
    using assms(1,2)
    by (simp only: generate_reports_def Let_def target.case if_True if_False not_True_eq_False
        fn mk op ser assms(8) sum.case)
  from add_xml_reports_elements [OF assms(8)] have
    el: "map (\<lambda>ts. (node_name ts, attributes ts)) tss
           = map (\<lambda>(suite, tests).
                   (u ''testsuite'', attributes (report_testsuite suite ?suffix tests)))
               (get_info_by_testcase s)"
    by auto
  have fs: "map fst (get_info_by_testcase s) = first_seen (map fst (by_index (testcase_list s)))"
    by (simp add: get_info_by_testcase_def group_tests_def group_tests_spec by_index_def)
  from gen el fs show ?thesis
    by (simp add: file_write_def)
qed

theorem single_file_mode_one_combined_file_witness:
  "output_target (sample_runner (Path (u ''out/r.xml'')) True) = Path (u ''out/r.xml'')
   \<and> endswith (lower (u ''out/r.xml'')) (u ''.xml'')
   \<and> u ''/w/'' @ u ''out/r.xml'' = u ''/w/out/r'' @ u ''.xml''
   \<and> lower (u ''.xml'') = u ''.xml''
   \<and> list_ex (\<lambda>c. c \<noteq> 46) (final_component (u ''/w/out/r''))
   \<and> map fst (get_info_by_testcase (fst (exec_events sample_events
         (make_result (sample_runner (Path (u ''out/r.xml'')) True)
            (DelegateIO [] (Console 1)) (DelegateIO [] (Console 2))))))
       = [u ''pkg.mod.CaseA'']
   \<and> generate_reports ascii_codec (\<lambda>p. u ''/w/'' @ p)
        (fst (exec_events sample_events
           (make_result (sample_runner (Path (u ''out/r.xml'')) True)
              (DelegateIO [] (Console 1)) (DelegateIO [] (Console 2)))))
        (sample_runner (Path (u ''out/r.xml'')) True) (sample_world {})
       = ((sample_world {})\<lparr>calls :=
            [ Makedirs (u ''/w/out''),
              Open_wb (u ''/w/out/r-X.xml''),
              File_write (u ''/w/out/r-X.xml'')
                (Document
                  [Element (u ''testsuites'') []
                    [Element (u ''testsuite'')
                       [ (u ''name'', u ''pkg.mod.CaseA-X''), (u ''tests'', u ''1''),
                         (u ''time'', u ''0.500''), (u ''failures'', u ''0''),
                         (u ''errors'', u ''0'') ]
                       [Element (u ''testcase'')
                          [ (u ''classname'', u ''pkg.mod.CaseA''), (u ''name'', u ''test_one''),
                            (u ''time'', u ''0.500'') ]
                          [Element (u ''system-out'') [] [CDATASection (u ''hello'')]]]]]) ]\<rparr>,
          None)"
proof -
  let ?R = "sample_runner (Path (u ''out/r.xml'')) True"
  let ?w = "sample_world {}"
  let ?abs = "\<lambda>p. u ''/w/'' @ p"
  define S where "S = fst (exec_events sample_events
              (make_result ?R (DelegateIO [] (Console 1)) (DelegateIO [] (Console 2))))"
  let ?rec = "\<lparr> outcome = SUCCESS, test_index = 0, elapsed_time = 500, err = NoErr,
                std_output = Some (u ''hello''), err_output = Some [],
                test_description = u ''test_one (pkg.mod.CaseA)'',
                test_exception_info = [],
                test_name = u ''pkg.mod.CaseA'',
                test_id = u ''pkg.mod.CaseA.test_one'' \<rparr>"
  let ?ts = "Element (u ''testsuite'')
               [ (u ''name'', u ''pkg.mod.CaseA-X''), (u ''tests'', u ''1''),
                 (u ''time'', u ''0.500''), (u ''failures'', u ''0''),
                 (u ''errors'', u ''0'') ]
               [Element (u ''testcase'')
                  [ (u ''classname'', u ''pkg.mod.CaseA''), (u ''name'', u ''test_one''),
                    (u ''time'', u ''0.500'') ]
                  [Element (u ''system-out'') [] [CDATASection (u ''hello'')]]]"
  have a: "output_target ?R = Path (u ''out/r.xml'')"
    by (simp add: sample_runner_def XMLTestRunner_init_def)
  have b: "endswith (lower (u ''out/r.xml'')) (u ''.xml'')"
    by (simp add: endswith_def lower_def lower_char_def u_def)
  have c: "?abs (u ''out/r.xml'') = u ''/w/out/r'' @ u ''.xml''"
    by (simp add: u_def)
  have d: "lower (u ''.xml'') = u ''.xml''"
    by (simp add: lower_def lower_char_def u_def)
  have e: "list_ex (\<lambda>c. c \<noteq> 46) (final_component (u ''/w/out/r''))"
    by (simp add: final_component_def u_def)
  have sp: "fst (path_split (?abs (u ''out/r.xml''))) = u ''/w/out''"
    by (simp add: path_split_def rfind_def os_sep_def u_def Let_def)
  have suf: "outsuffix ?R = u ''X''"
    by (simp add: sample_runner_def XMLTestRunner_init_def u_def)
  have f: "path_exists ?w (fst (path_split (?abs (u ''out/r.xml''))))
           \<or> fst (path_split (?abs (u ''out/r.xml''))) \<notin> io_fault ?w"
    by (simp add: sample_world_def)
  have g: "spec_single_file (u ''/w/out/r'') (u ''.xml'') (outsuffix ?R) \<notin> io_fault ?w"
    by (simp add: sample_world_def)
  have enc: "encoding S = u ''utf-8''" and pto: "per_test_output S"
    unfolding S_def by code_simp+
  have gr: "get_info_by_testcase S = [(u ''pkg.mod.CaseA'', [?rec])]"
    unfolding S_def by code_simp
  have f3: "format_3f 500 = u ''0.500''"
    by (simp add: format_3f_def u_def str_nat.simps)
  have ax: "add_xml_report ascii_codec S (u ''X'') (u ''pkg.mod.CaseA'') [?rec] (The_testsuites [])
              = Inr ?ts"
    by (simp add: add_xml_report_def enc pto report_testcase_def report_captured_cases
        report_testsuite_def document_with_def toprettyxml_def ascii_codec_def
        test_method_name_sample f3 legal_hello str_nat.simps)
       (simp add: u_def)
  have h: "add_xml_reports ascii_codec S (outsuffix ?R) (get_info_by_testcase S) [] = Inr [?ts]"
    unfolding gr suf by (simp add: ax)
  have i: "get_info_by_testcase S \<noteq> [] \<or> ascii_codec (encoding S) [] \<noteq> Inl LookupError"
    unfolding gr by simp
  note t = single_file_mode_one_combined_file [of ?R "u ''out/r.xml''" ?abs "u ''/w/out/r''"
      "u ''.xml''" ?w ascii_codec S "[?ts]", OF a b c d e f g h i]
  have fn: "spec_single_file (u ''/w/out/r'') (u ''.xml'') (u ''X'') = u ''/w/out/r-X.xml''"
    by (simp add: spec_single_file_def u_def)
  from t have "generate_reports ascii_codec ?abs S ?R ?w =
           (?w\<lparr>calls := calls ?w
                @ (if path_exists ?w (fst (path_split (?abs (u ''out/r.xml'')))) then []
                   else [Makedirs (fst (path_split (?abs (u ''out/r.xml''))))])
                @ [ Open_wb (spec_single_file (u ''/w/out/r'') (u ''.xml'') (outsuffix ?R)),
                    File_write (spec_single_file (u ''/w/out/r'') (u ''.xml'') (outsuffix ?R))
                      (Document [Element (u ''testsuites'') [] [?ts]]) ]\<rparr>, None)"
    by (rule conjunct1)
  then have k: "generate_reports ascii_codec ?abs S ?R ?w =
           (?w\<lparr>calls := [ Makedirs (u ''/w/out''), Open_wb (u ''/w/out/r-X.xml''),
                File_write (u ''/w/out/r-X.xml'')
                  (Document [Element (u ''testsuites'') [] [?ts]]) ]\<rparr>, None)"
    unfolding sp suf fn by (simp add: sample_world_def)
  have l: "map fst (get_info_by_testcase S) = [u ''pkg.mod.CaseA'']"
    unfolding gr by simp
  from a b c d e l k show ?thesis unfolding S_def by blast
qed

end
